theory Spec2Isabelle
  imports Complex_Main
begin

section \<open>The proxy's data model\<close>

text \<open>
  The proxy of \<^verbatim>\<open>proxy.go\<close> keeps its topology behind pointers: the maps of
  \<^verbatim>\<open>reverseProxy\<close> and \<^verbatim>\<open>cluster\<close> hold \<^verbatim>\<open>*initialUser\<close>,
  \<^verbatim>\<open>*executionUser\<close> and \<^verbatim>\<open>*host\<close>, and a request's scope points at the
  same objects. Objects with a mutable counter live in an explicit store, addressed by
  pointers; a pointer that may be \<^verbatim>\<open>nil\<close> is a \<open>ptr option\<close>. The mutexes are
  left out: one call runs at a time in this model.
\<close>

type_synonym ptr = nat

text \<open>\<^verbatim>\<open>time.Duration\<close>: a count of nanoseconds (an int64 that the program only reads).\<close>

type_synonym Duration = int

text \<open>\<^verbatim>\<open>url.URL\<close>, with the two fields the program reads.\<close>

record URL =
  Scheme :: string
  Host :: string

text \<open>
  Modelled from the spec: the declaration of \<^verbatim>\<open>host\<close> is not among the sources.
  ``Host: one backend network endpoint. Attributes: address (scheme+host), a live count of
  currently running queries.''
\<close>

record host =
  addr :: URL
  runningQueries :: nat

text \<open>
  Modelled from the spec: the declaration of \<^verbatim>\<open>executionUser\<close> is not among the
  sources. ``Attributes: name, password, maximum concurrent queries, maximum execution
  time, a live count of queries currently running under this identity.'' The field names
  are those \<^verbatim>\<open>ApplyConfig\<close> and \<^verbatim>\<open>ServeHTTP\<close> use.
\<close>

record executionUser =
  name :: string
  password :: string
  maxConcurrentQueries :: int
  maxExecutionTime :: Duration
  runningQueries :: nat

text \<open>
  \<^verbatim>\<open>initialUser\<close> embeds \<^verbatim>\<open>executionUser\<close> (the composite literal of
  \<^verbatim>\<open>ApplyConfig\<close>) and adds the mapping.
\<close>

record initialUser = executionUser +
  toCluster :: string
  toUser :: string

text \<open>
  \<^verbatim>\<open>cluster\<close>: the host list and the execution users by name. Its two fields are
  never assigned after \<^verbatim>\<open>ApplyConfig\<close> built it, so a \<^verbatim>\<open>*cluster\<close> is modelled
  by the value it points to.
\<close>

record cluster =
  hosts :: "ptr list"
  users :: "string \<rightharpoonup> ptr"

record reverseProxy =
  users :: "string \<rightharpoonup> ptr"
  clusters :: "string \<rightharpoonup> cluster"

record scope =
  initialUser :: ptr
  executionUser :: ptr
  cluster :: cluster
  host :: "ptr option"

text \<open>
  The store: the objects behind the pointers, one address space per type, each with the
  next free address (what \<^verbatim>\<open>&host{...}\<close> allocates), the logger's debug flag, and the
  value of every counter of the metrics, by metric name and label values.
\<close>

record store =
  hostAt :: "ptr \<Rightarrow> host"
  euAt :: "ptr \<Rightarrow> executionUser"
  iuAt :: "ptr \<Rightarrow> initialUser"
  nextHost :: ptr
  nextEU :: ptr
  nextIU :: ptr
  logDebug :: bool
  counterAt :: "string \<Rightarrow> string list \<Rightarrow> nat"

section \<open>Load balancer: \<^verbatim>\<open>cluster.getHost\<close>\<close>

text \<open>
  The loop of \<^verbatim>\<open>getHost\<close> over \<^verbatim>\<open>c.hosts\<close>, with the local \<^verbatim>\<open>idle\<close> as the
  accumulator: a host with no running query is returned at once; otherwise \<^verbatim>\<open>idle\<close>
  is replaced when it is \<^verbatim>\<open>nil\<close> or runs strictly more queries than the host at hand.
\<close>

fun getHost_loop :: "store \<Rightarrow> ptr list \<Rightarrow> ptr option \<Rightarrow> ptr option" where
  "getHost_loop \<sigma> [] idle = idle"
| "getHost_loop \<sigma> (t # ts) idle =
     (if host.runningQueries (hostAt \<sigma> t) = 0 then Some t
      else getHost_loop \<sigma> ts
        (case idle of
           None \<Rightarrow> Some t
         | Some i \<Rightarrow>
             if host.runningQueries (hostAt \<sigma> i) > host.runningQueries (hostAt \<sigma> t)
             then Some t else Some i))"

definition getHost :: "store \<Rightarrow> cluster \<Rightarrow> ptr option" where
  "getHost \<sigma> c = getHost_loop \<sigma> (cluster.hosts c) None"

section \<open>Formatted text, errors and panics\<close>

text \<open>
  A text built by \<^verbatim>\<open>fmt.Sprintf\<close> or \<^verbatim>\<open>fmt.Errorf\<close> is kept as its pieces: the
  literal parts of the format string and, for each verb, the argument it prints.
  \<open>Lit\<close> is literal text, \<open>Q\<close> a string under \<^verbatim>\<open>%q\<close> and \<open>V\<close> a duration under
  \<^verbatim>\<open>%v\<close>. How the library quotes a string or prints a duration is a parameter of
  \<open>render\<close>. An \<^verbatim>\<open>error\<close> made by \<^verbatim>\<open>fmt.Errorf\<close> is its message.
\<close>

datatype piece = Lit string | Q string | V Duration

type_synonym error = "piece list"

fun render :: "(string \<Rightarrow> string) \<Rightarrow> (Duration \<Rightarrow> string) \<Rightarrow> piece list \<Rightarrow> string" where
  "render q v [] = []"
| "render q v (Lit s # ps) = s @ render q v ps"
| "render q v (Q s # ps) = q s @ render q v ps"
| "render q v (V d # ps) = v d @ render q v ps"

text \<open>
  A run-time panic of Go: the dereference of a \<^verbatim>\<open>nil\<close> pointer, and the two errors
  with which the metrics library's \<^verbatim>\<open>With\<close> panics.
\<close>

datatype panic =
  NilPointerDereference
| InconsistentCardinality
| LabelNameMissing string

text \<open>A call of Go code either returns or panics.\<close>

datatype 'a call = Returns 'a | Panics panic

text \<open>The verb \<^verbatim>\<open>%d\<close> on an \<^verbatim>\<open>int\<close>: the decimal digits, after a minus sign if negative.\<close>

definition digit :: "nat \<Rightarrow> char" where
  "digit n = ''0123456789'' ! n"

fun showNat :: "nat \<Rightarrow> string" where
  "showNat n = (if n < 10 then [digit n] else showNat (n div 10) @ [digit (n mod 10)])"

definition itoa :: "int \<Rightarrow> string" where
  "itoa i = (if i < 0 then ''-'' @ showNat (nat (- i)) else showNat (nat i))"

text \<open>
  The conversion \<^verbatim>\<open>int(elapsed)\<close> of a \<^verbatim>\<open>float64\<close>: the fraction is discarded.
  A \<^verbatim>\<open>float64\<close> is modelled by the real number it denotes.
\<close>

definition float64_to_int :: "real \<Rightarrow> int" where
  "float64_to_int x = (if 0 \<le> x then \<lfloor>x\<rfloor> else \<lceil>x\<rceil>)"

text \<open>\<^verbatim>\<open>URL.String()\<close> of an address that has a scheme and a host.\<close>

definition URL_String :: "URL \<Rightarrow> string" where
  "URL_String u = Scheme u @ ''://'' @ Host u"

section \<open>The configuration\<close>

text \<open>
  Modelled from the spec: the package \<^verbatim>\<open>config\<close> is not among the sources. ``per
  cluster: name, URL scheme, node address list, execution-user list (name, password,
  limits); and, globally: initial-user list (name, password, limits, target cluster, target
  execution user) plus a debug-logging toggle.'' The field names are those
  \<^verbatim>\<open>ApplyConfig\<close> reads.
\<close>

record OutUser =
  Name :: string
  Password :: string
  MaxConcurrentQueries :: int
  MaxExecutionTime :: Duration

record GlobalUser = OutUser +
  ToCluster :: string
  ToUser :: string

record Cluster =
  Name :: string
  Scheme :: string
  Nodes :: "string list"
  OutUsers :: "OutUser list"

record Config =
  Clusters :: "Cluster list"
  GlobalUsers :: "GlobalUser list"
  LogDebug :: bool

section \<open>Topology and configuration manager: \<^verbatim>\<open>ApplyConfig\<close>\<close>

text \<open>\<^verbatim>\<open>&host{...}\<close>, \<^verbatim>\<open>&executionUser{...}\<close>, \<^verbatim>\<open>&initialUser{...}\<close>: a fresh object.\<close>

definition newHost :: "host \<Rightarrow> store \<Rightarrow> ptr \<times> store" where
  "newHost h \<sigma> =
     (nextHost \<sigma>, \<sigma>\<lparr>hostAt := (hostAt \<sigma>)(nextHost \<sigma> := h), nextHost := Suc (nextHost \<sigma>)\<rparr>)"

definition newExecutionUser :: "executionUser \<Rightarrow> store \<Rightarrow> ptr \<times> store" where
  "newExecutionUser u \<sigma> =
     (nextEU \<sigma>, \<sigma>\<lparr>euAt := (euAt \<sigma>)(nextEU \<sigma> := u), nextEU := Suc (nextEU \<sigma>)\<rparr>)"

definition newInitialUser :: "initialUser \<Rightarrow> store \<Rightarrow> ptr \<times> store" where
  "newInitialUser u \<sigma> =
     (nextIU \<sigma>, \<sigma>\<lparr>iuAt := (iuAt \<sigma>)(nextIU \<sigma> := u), nextIU := Suc (nextIU \<sigma>)\<rparr>)"

text \<open>
  The loop over \<^verbatim>\<open>c.Nodes\<close>: \<open>parse\<close> is \<^verbatim>\<open>url.Parse\<close>, and its error ends
  \<^verbatim>\<open>ApplyConfig\<close>. A field the composite literal leaves out has its zero value.
\<close>

fun ApplyConfig_hosts ::
  "(string \<Rightarrow> error + URL) \<Rightarrow> string \<Rightarrow> string list \<Rightarrow> store \<Rightarrow> error + (ptr list \<times> store)" where
  "ApplyConfig_hosts parse scheme [] \<sigma> = Inr ([], \<sigma>)"
| "ApplyConfig_hosts parse scheme (node # nodes) \<sigma> =
     (case parse (scheme @ ''://'' @ node) of
        Inl err \<Rightarrow> Inl err
      | Inr a \<Rightarrow>
          (case ApplyConfig_hosts parse scheme nodes
                  (snd (newHost \<lparr>addr = a, runningQueries = 0\<rparr> \<sigma>)) of
             Inl err \<Rightarrow> Inl err
           | Inr (ps, \<sigma>') \<Rightarrow> Inr (fst (newHost \<lparr>addr = a, runningQueries = 0\<rparr> \<sigma>) # ps, \<sigma>')))"

text \<open>
  The loop over \<^verbatim>\<open>c.OutUsers\<close>. The literal sets \<^verbatim>\<open>name\<close> and \<^verbatim>\<open>password\<close> only.
\<close>

fun ApplyConfig_users ::
  "OutUser list \<Rightarrow> (string \<rightharpoonup> ptr) \<Rightarrow> store \<Rightarrow> (string \<rightharpoonup> ptr) \<times> store" where
  "ApplyConfig_users [] us \<sigma> = (us, \<sigma>)"
| "ApplyConfig_users (user # rest) us \<sigma> =
     ApplyConfig_users rest
       (us(OutUser.Name user \<mapsto>
          fst (newExecutionUser
                 \<lparr>name = OutUser.Name user, password = Password user,
                  maxConcurrentQueries = 0, maxExecutionTime = 0, runningQueries = 0\<rparr> \<sigma>)))
       (snd (newExecutionUser
               \<lparr>name = OutUser.Name user, password = Password user,
                maxConcurrentQueries = 0, maxExecutionTime = 0, runningQueries = 0\<rparr> \<sigma>))"

text \<open>The loop over \<^verbatim>\<open>cfg.Clusters\<close>.\<close>

fun ApplyConfig_clusters ::
  "(string \<Rightarrow> error + URL) \<Rightarrow> Cluster list \<Rightarrow> (string \<rightharpoonup> cluster) \<Rightarrow> store
     \<Rightarrow> error + ((string \<rightharpoonup> cluster) \<times> store)" where
  "ApplyConfig_clusters parse [] cm \<sigma> = Inr (cm, \<sigma>)"
| "ApplyConfig_clusters parse (c # cs) cm \<sigma> =
     (case ApplyConfig_hosts parse (Cluster.Scheme c) (Nodes c) \<sigma> of
        Inl err \<Rightarrow> Inl err
      | Inr (hs, \<sigma>1) \<Rightarrow>
          (case ApplyConfig_users (OutUsers c) Map.empty \<sigma>1 of
             (us, \<sigma>2) \<Rightarrow>
               ApplyConfig_clusters parse cs
                 (cm(Cluster.Name c \<mapsto> \<lparr>cluster.hosts = hs, cluster.users = us\<rparr>)) \<sigma>2))"

text \<open>
  The loop over \<^verbatim>\<open>cfg.GlobalUsers\<close>, with its two checks of the mapping. The literal
  sets the name, the two limits and the mapping; the password is left out.
\<close>

fun ApplyConfig_initialUsers ::
  "(string \<rightharpoonup> cluster) \<Rightarrow> GlobalUser list \<Rightarrow> (string \<rightharpoonup> ptr) \<Rightarrow> store
     \<Rightarrow> error + ((string \<rightharpoonup> ptr) \<times> store)" where
  "ApplyConfig_initialUsers cm [] ium \<sigma> = Inr (ium, \<sigma>)"
| "ApplyConfig_initialUsers cm (u # rest) ium \<sigma> =
     (case cm (ToCluster u) of
        None \<Rightarrow>
          Inl [Lit ''error while mapping user '', Q (OutUser.Name u), Lit '' to cluster '',
               Q (ToCluster u), Lit '': no such cluster'']
      | Some c \<Rightarrow>
          (case cluster.users c (ToUser u) of
             None \<Rightarrow>
               Inl [Lit ''error while mapping user '', Q (OutUser.Name u),
                    Lit '' to cluster's '', Q (ToCluster u), Lit '' user '',
                    Q (ToUser u), Lit '': no such user'']
           | Some _ \<Rightarrow>
               ApplyConfig_initialUsers cm rest
                 (ium(OutUser.Name u \<mapsto>
                    fst (newInitialUser
                           \<lparr>name = OutUser.Name u, password = [],
                            maxConcurrentQueries = MaxConcurrentQueries u,
                            maxExecutionTime = MaxExecutionTime u, runningQueries = 0,
                            toCluster = ToCluster u, toUser = ToUser u\<rparr> \<sigma>)))
                 (snd (newInitialUser
                         \<lparr>name = OutUser.Name u, password = [],
                          maxConcurrentQueries = MaxConcurrentQueries u,
                          maxExecutionTime = MaxExecutionTime u, runningQueries = 0,
                          toCluster = ToCluster u, toUser = ToUser u\<rparr> \<sigma>))))"

text \<open>
  \<^verbatim>\<open>ApplyConfig\<close>: \<open>validate\<close> is \<^verbatim>\<open>cfg.Validate\<close> (not among the sources) and
  \<open>parse\<close> is \<^verbatim>\<open>url.Parse\<close>. It returns the error (\<open>None\<close> is \<^verbatim>\<open>nil\<close>), the proxy
  and the store. The two maps are assigned after the last loop; an earlier return leaves
  the proxy as it was, and the objects built until then are unreachable.
\<close>

definition ApplyConfig ::
  "(Config \<Rightarrow> error option) \<Rightarrow> (string \<Rightarrow> error + URL) \<Rightarrow> Config \<Rightarrow> reverseProxy \<Rightarrow> store
     \<Rightarrow> error option \<times> reverseProxy \<times> store" where
  "ApplyConfig validate parse cfg rp \<sigma> =
     (case validate cfg of
        Some err \<Rightarrow> (Some err, rp, \<sigma>)
      | None \<Rightarrow>
          (case ApplyConfig_clusters parse (Clusters cfg) Map.empty \<sigma> of
             Inl err \<Rightarrow> (Some err, rp, \<sigma>)
           | Inr (cm, \<sigma>1) \<Rightarrow>
               (case ApplyConfig_initialUsers cm (GlobalUsers cfg) Map.empty \<sigma>1 of
                  Inl err \<Rightarrow> (Some err, rp, \<sigma>)
                | Inr (ium, \<sigma>2) \<Rightarrow>
                    (None, rp\<lparr>clusters := cm, users := ium\<rparr>,
                     \<sigma>2\<lparr>logDebug := LogDebug cfg\<rparr>))))"

section \<open>Authenticator and scope resolver: \<^verbatim>\<open>getRequestScope\<close>\<close>

text \<open>
  An inbound \<^verbatim>\<open>http.Request\<close>: its basic-auth credentials (user name and password), and
  the fields that \<^verbatim>\<open>ServeHTTP\<close> reads or writes.
\<close>

record Request =
  BasicAuth :: "string \<times> string"
  URL :: URL
  UserAgent :: string

text \<open>
  Modelled from the spec: the helper \<^verbatim>\<open>basicAuth\<close> is not among the sources. ``Inbound:
  HTTP requests authenticated via standard basic-auth credentials''; ``given request
  credentials (username, password)'': it returns the request's user name and password.
\<close>

definition basicAuth :: "Request \<Rightarrow> string \<times> string" where
  "basicAuth req = BasicAuth req"

definition getRequestScope :: "store \<Rightarrow> reverseProxy \<Rightarrow> Request \<Rightarrow> error + scope" where
  "getRequestScope \<sigma> rp req =
     (case basicAuth req of
        (nm, pw) \<Rightarrow>
          (case reverseProxy.users rp nm of
             None \<Rightarrow> Inl [Lit ''invalid username or password for user '', Q nm]
           | Some iu \<Rightarrow>
               if password (iuAt \<sigma> iu) \<noteq> pw
               then Inl [Lit ''invalid username or password for user '', Q nm]
               else
                 (case clusters rp (toCluster (iuAt \<sigma> iu)) of
                    None \<Rightarrow>
                      Inl [Lit ''BUG: user '', Q (name (iuAt \<sigma> iu)),
                           Lit '' matches to unknown cluster '', Q (toCluster (iuAt \<sigma> iu))]
                  | Some c \<Rightarrow>
                      (case cluster.users c (toUser (iuAt \<sigma> iu)) of
                         None \<Rightarrow>
                           Inl [Lit ''BUG: user '', Q (name (iuAt \<sigma> iu)),
                                Lit '' matches to unknown user '', Q (toUser (iuAt \<sigma> iu)),
                                Lit '' at cluster '', Q (toCluster (iuAt \<sigma> iu))]
                       | Some eu \<Rightarrow>
                           Inr \<lparr>initialUser = iu, executionUser = eu, cluster = c,
                                host = getHost \<sigma> c\<rparr>))))"

section \<open>The metrics\<close>

text \<open>
  A \<^verbatim>\<open>prometheus.CounterVec\<close> is registered with its variable label names.
  \<^verbatim>\<open>With\<close> takes a label map (here the pairs of the map literal, whose keys differ) and
  panics with the error of \<^verbatim>\<open>GetMetricWith\<close>: ``An error is returned if the number and
  names of the Labels are inconsistent with those of the VariableLabels in Desc.''
  Otherwise it gives the counter of these label values, which \<^verbatim>\<open>Inc\<close> increments.
\<close>

record CounterVec =
  Name :: string
  Help :: string
  variableLabels :: "string list"

type_synonym Labels = "(string \<times> string) list"

fun labelValues :: "string list \<Rightarrow> Labels \<Rightarrow> string list call" where
  "labelValues [] labels = Returns []"
| "labelValues (l # ls) labels =
     (case map_of labels l of
        None \<Rightarrow> Panics (LabelNameMissing l)
      | Some v \<Rightarrow>
          (case labelValues ls labels of
             Panics p \<Rightarrow> Panics p
           | Returns vs \<Rightarrow> Returns (v # vs)))"

definition With :: "CounterVec \<Rightarrow> Labels \<Rightarrow> (string \<times> string list) call" where
  "With vec labels =
     (if length labels \<noteq> length (variableLabels vec) then Panics InconsistentCardinality
      else
        (case labelValues (variableLabels vec) labels of
           Panics p \<Rightarrow> Panics p
         | Returns vs \<Rightarrow> Returns (CounterVec.Name vec, vs)))"

definition Inc :: "string \<times> string list \<Rightarrow> store \<Rightarrow> store" where
  "Inc k \<sigma> = \<sigma>\<lparr>counterAt := (counterAt \<sigma>)(fst k := (counterAt \<sigma> (fst k))(snd k := Suc (counterAt \<sigma> (fst k) (snd k))))\<rparr>"

text \<open>The five vectors that \<^verbatim>\<open>init\<close> registers.\<close>

definition statusCodes :: CounterVec where
  "statusCodes =
     \<lparr>CounterVec.Name = ''status_codes'', Help = ''Distribution by status codes counter'',
      variableLabels = [''target'', ''code'']\<rparr>"

definition timeouts :: CounterVec where
  "timeouts =
     \<lparr>CounterVec.Name = ''request_timeouts'', Help = ''Number of timeouts'',
      variableLabels = [''initial_user'', ''execution_user'', ''host'']\<rparr>"

definition errors :: CounterVec where
  "errors =
     \<lparr>CounterVec.Name = ''request_errors'',
      Help = ''Number of errors returned by target. Including amount of timeouts'',
      variableLabels = [''host'', ''message'']\<rparr>"

definition requestSum :: CounterVec where
  "requestSum =
     \<lparr>CounterVec.Name = ''request_sum'', Help = ''Total number of sent requests'',
      variableLabels = [''initial_user'', ''execution_user'', ''host'']\<rparr>"

definition requestSuccess :: CounterVec where
  "requestSuccess =
     \<lparr>CounterVec.Name = ''request_success'', Help = ''Total number of sent success requests'',
      variableLabels = [''initial_user'', ''execution_user'', ''host'']\<rparr>"

section \<open>The observable transport: \<^verbatim>\<open>RoundTrip\<close>\<close>

text \<open>
  \<open>res\<close> is what the embedded \<^verbatim>\<open>http.Transport\<close> returned: the response (\<open>None\<close> is
  \<^verbatim>\<open>nil\<close>) and the error, by its message.
\<close>

record Response =
  Status :: string

definition RoundTrip ::
  "Request \<Rightarrow> Response option \<times> string option \<Rightarrow> store
     \<Rightarrow> ((Response option \<times> string option) \<times> store) call" where
  "RoundTrip r res \<sigma> =
     (case
        (case fst res of
           None \<Rightarrow> Returns \<sigma>
         | Some response \<Rightarrow>
             (case With statusCodes [(''host'', Host (URL r)), (''code'', Status response)] of
                Panics p \<Rightarrow> Panics p
              | Returns k \<Rightarrow> Returns (Inc k \<sigma>)))
      of
        Panics p \<Rightarrow> Panics p
      | Returns \<sigma>1 \<Rightarrow>
          (case snd res of
             None \<Rightarrow> Returns (res, \<sigma>1)
           | Some err \<Rightarrow>
               (case With errors [(''host'', Host (URL r)), (''message'', err)] of
                  Panics p \<Rightarrow> Panics p
                | Returns k \<Rightarrow> Returns (res, Inc k \<sigma>1))))"

section \<open>Dispatcher: \<^verbatim>\<open>killQueries\<close> and \<^verbatim>\<open>ServeHTTP\<close>\<close>

text \<open>
  What a run of \<^verbatim>\<open>ServeHTTP\<close> does to the outside, in order: the calls of the helpers
  that are not among the sources (\<^verbatim>\<open>respondWithErr\<close>, \<^verbatim>\<open>scope.inc\<close>,
  \<^verbatim>\<open>scope.dec\<close>, \<^verbatim>\<open>doQuery\<close> with its statement and address), the start of the
  backend call with the rewritten request, the cancellation, and what it writes to the
  client. Logging is left out.
\<close>

datatype event =
  RespondWithErr error
| Call_inc
| Call_dec
| Forward Request
| Cancel
| DoQuery string string
| Write "piece list"

text \<open>
  \<^verbatim>\<open>killQueries\<close>: one \<^verbatim>\<open>doQuery\<close> per host of the cluster, in list order; an error
  of \<^verbatim>\<open>doQuery\<close> is logged and the loop goes on.
\<close>

definition killQueries :: "store \<Rightarrow> cluster \<Rightarrow> string \<Rightarrow> real \<Rightarrow> event list" where
  "killQueries \<sigma> c condition elapsed =
     map (DoQuery (''KILL QUERY WHERE '' @ condition @ '' AND elapsed >= ''
                     @ itoa (float64_to_int elapsed)))
       (map (\<lambda>h. URL_String (addr (hostAt \<sigma> h))) (cluster.hosts c))"

text \<open>
  What happens first after \<^verbatim>\<open>ServeHTTP\<close> has started the goroutine of the backend
  call: one of the two timers fires while the call is in flight, or the call is done
  before either, the embedded \<^verbatim>\<open>http.Transport\<close> having returned the given response
  and error to \<^verbatim>\<open>RoundTrip\<close>.
\<close>

datatype race =
  InitialUserTimeout
| ExecutionUserTimeout
| BackendDone "Response option \<times> string option"

text \<open>
  The goroutine and the \<^verbatim>\<open>select\<close> statement of \<^verbatim>\<open>ServeHTTP\<close>. \<open>Seconds\<close> is
  \<^verbatim>\<open>time.Duration.Seconds\<close>, a \<^verbatim>\<open>float64\<close>; \<open>fw\<close> is the rewritten request. The
  goroutine runs \<^verbatim>\<open>rp.ReverseProxy.ServeHTTP\<close>, which hands the request to the proxy's
  transport: the \<^verbatim>\<open>observableTransport\<close> that \<^verbatim>\<open>NewReverseProxy\<close> installs, whose
  \<^verbatim>\<open>RoundTrip\<close> is modelled above. Nothing recovers a panic of \<^verbatim>\<open>RoundTrip\<close> in that
  goroutine, so it ends the process and the run of \<^verbatim>\<open>ServeHTTP\<close> with it; otherwise
  the goroutine sends on the channel and the third case of the \<^verbatim>\<open>select\<close> statement is
  taken.
\<close>

definition ServeHTTP_select ::
  "(Duration \<Rightarrow> real) \<Rightarrow> scope \<Rightarrow> Labels \<Rightarrow> string \<Rightarrow> Request \<Rightarrow> race \<Rightarrow> store
     \<Rightarrow> store call \<times> event list" where
  "ServeHTTP_select Seconds s label ua fw r \<sigma> =
     (case r of
        InitialUserTimeout \<Rightarrow>
          (case With timeouts label of
             Panics p \<Rightarrow> (Panics p, [Cancel])
           | Returns k \<Rightarrow>
               (Returns (Inc k \<sigma>),
                [Cancel]
                @ killQueries (Inc k \<sigma>) (cluster s)
                    (''http_user_agent = '' @ [CHR 0x27] @ ua @ [CHR 0x27])
                    (Seconds (maxExecutionTime (iuAt (Inc k \<sigma>) (initialUser s))))
                @ [Write [Lit ''timeout for initial user '',
                          Q (name (iuAt (Inc k \<sigma>) (initialUser s))), Lit '' exceeded: '',
                          V (maxExecutionTime (iuAt (Inc k \<sigma>) (initialUser s)))]]))
      | ExecutionUserTimeout \<Rightarrow>
          (case With timeouts label of
             Panics p \<Rightarrow> (Panics p, [Cancel])
           | Returns k \<Rightarrow>
               (Returns (Inc k \<sigma>),
                [Cancel]
                @ killQueries (Inc k \<sigma>) (cluster s)
                    (''initial_user = '' @ [CHR 0x27]
                       @ name (euAt (Inc k \<sigma>) (executionUser s)) @ [CHR 0x27])
                    (Seconds (maxExecutionTime (euAt (Inc k \<sigma>) (executionUser s))))
                @ [Write [Lit ''timeout for execution user '',
                          Q (name (euAt (Inc k \<sigma>) (executionUser s))), Lit '' exceeded: '',
                          V (maxExecutionTime (euAt (Inc k \<sigma>) (executionUser s)))]]))
      | BackendDone res \<Rightarrow>
          (case RoundTrip fw res \<sigma> of
             Panics p \<Rightarrow> (Panics p, [])
           | Returns (_, \<sigma>') \<Rightarrow>
               (case With requestSuccess label of
                  Panics p \<Rightarrow> (Panics p, [])
                | Returns k \<Rightarrow> (Returns (Inc k \<sigma>'), []))))"

text \<open>
  \<^verbatim>\<open>ServeHTTP\<close>. \<open>inc\<close> and \<open>dec\<close> are \<^verbatim>\<open>scope.inc\<close> and \<^verbatim>\<open>scope.dec\<close>, which are
  not among the sources: \<open>inc\<close> returns its error (\<open>None\<close> is \<^verbatim>\<open>nil\<close>) and the store.
  \<open>r\<close> is what happens first once the backend call is started. The result is the store
  with which the function returns, or the panic that ends the run, and the events until
  then. Reading \<^verbatim>\<open>s.host.addr\<close> for the label panics when \<^verbatim>\<open>s.host\<close> is \<^verbatim>\<open>nil\<close>.
\<close>

definition ServeHTTP ::
  "(Duration \<Rightarrow> real) \<Rightarrow> (scope \<Rightarrow> store \<Rightarrow> (error option \<times> store) call)
     \<Rightarrow> (scope \<Rightarrow> store \<Rightarrow> store call)
     \<Rightarrow> reverseProxy \<Rightarrow> Request \<Rightarrow> race \<Rightarrow> store \<Rightarrow> store call \<times> event list" where
  "ServeHTTP Seconds inc dec rp req r \<sigma> =
     (case getRequestScope \<sigma> rp req of
        Inl err \<Rightarrow> (Returns \<sigma>, [RespondWithErr err])
      | Inr s \<Rightarrow>
          (case inc s \<sigma> of
             Panics p \<Rightarrow> (Panics p, [Call_inc])
           | Returns (Some err, \<sigma>1) \<Rightarrow> (Returns \<sigma>1, [Call_inc, RespondWithErr err])
           | Returns (None, \<sigma>1) \<Rightarrow>
               (case scope.host s of
                  None \<Rightarrow> (Panics NilPointerDereference, [Call_inc])
                | Some h \<Rightarrow>
                    (case With requestSum
                            [(''initial_user'', name (iuAt \<sigma>1 (initialUser s))),
                             (''execution_user'', name (euAt \<sigma>1 (executionUser s))),
                             (''host'', Host (addr (hostAt \<sigma>1 h)))] of
                       Panics p \<Rightarrow> (Panics p, [Call_inc])
                     | Returns k \<Rightarrow>
                         (case ServeHTTP_select Seconds s
                                 [(''initial_user'', name (iuAt \<sigma>1 (initialUser s))),
                                  (''execution_user'', name (euAt \<sigma>1 (executionUser s))),
                                  (''host'', Host (addr (hostAt \<sigma>1 h)))]
                                 (''ClickHouseProxy: '' @ name (iuAt \<sigma>1 (initialUser s)))
                                 (req\<lparr>URL := (URL req)\<lparr>URL.Scheme := URL.Scheme (addr (hostAt \<sigma>1 h)),
                                                        Host := Host (addr (hostAt \<sigma>1 h))\<rparr>,
                                       UserAgent := ''ClickHouseProxy: '' @ name (iuAt \<sigma>1 (initialUser s))\<rparr>)
                                 r (Inc k \<sigma>1) of
                            (Panics p, es) \<Rightarrow>
                              (Panics p,
                               [Call_inc,
                                Forward (req\<lparr>URL := (URL req)\<lparr>URL.Scheme := URL.Scheme (addr (hostAt \<sigma>1 h)),
                                                              Host := Host (addr (hostAt \<sigma>1 h))\<rparr>,
                                              UserAgent := ''ClickHouseProxy: '' @ name (iuAt \<sigma>1 (initialUser s))\<rparr>)]
                               @ es)
                          | (Returns \<sigma>3, es) \<Rightarrow>
                              (dec s \<sigma>3,
                               [Call_inc,
                                Forward (req\<lparr>URL := (URL req)\<lparr>URL.Scheme := URL.Scheme (addr (hostAt \<sigma>1 h)),
                                                              Host := Host (addr (hostAt \<sigma>1 h))\<rparr>,
                                              UserAgent := ''ClickHouseProxy: '' @ name (iuAt \<sigma>1 (initialUser s))\<rparr>)]
                               @ es @ [Call_dec]))))))"

text \<open>The calls of \<^verbatim>\<open>doQuery\<close> in a run, in order: the statement and the address.\<close>

fun doQueries :: "event list \<Rightarrow> (string \<times> string) list" where
  "doQueries [] = []"
| "doQueries (DoQuery q a # es) = (q, a) # doQueries es"
| "doQueries (e # es) = doQueries es"

section \<open>Admission controller: \<^verbatim>\<open>scope.inc\<close> and \<^verbatim>\<open>scope.dec\<close>\<close>

text \<open>
  Modelled from the spec: \<^verbatim>\<open>scope.inc\<close> and \<^verbatim>\<open>scope.dec\<close> are not among the
  sources. ``\<^verbatim>\<open>inc()\<close> atomically attempts to reserve one concurrency slot in both the
  InitialUser's and ExecutionUser's counters and the selected Host's counter; it must fail
  with a resource-exhaustion error (naming whether the initial user's or the execution
  user's limit was hit) if either the InitialUser's or the ExecutionUser's running-count
  would exceed its configured maximum, and in that case it must not mutate any counter
  (all-or-nothing). On success it increments all three counters. \<^verbatim>\<open>dec()\<close>
  unconditionally decrements the same three counters.'' A scope whose host is \<^verbatim>\<open>nil\<close>
  has no third counter: touching it is the dereference of a \<^verbatim>\<open>nil\<close> pointer, a panic,
  so that where \<open>scope_inc\<close> succeeds all three counters are incremented. The counters are
  natural numbers: \<open>scope_dec\<close> on a counter that is zero, which no call after a successful
  \<open>scope_inc\<close> meets, leaves it at zero.
\<close>

definition scope_inc :: "scope \<Rightarrow> store \<Rightarrow> (error option \<times> store) call" where
  "scope_inc s \<sigma> =
     (if maxConcurrentQueries (iuAt \<sigma> (initialUser s))
           < int (executionUser.runningQueries (iuAt \<sigma> (initialUser s))) + 1
      then Returns (Some [Lit ''limits for initial user '', Q (name (iuAt \<sigma> (initialUser s))),
                          Lit '' are exceeded''], \<sigma>)
      else if maxConcurrentQueries (euAt \<sigma> (executionUser s))
           < int (executionUser.runningQueries (euAt \<sigma> (executionUser s))) + 1
      then Returns (Some [Lit ''limits for execution user '', Q (name (euAt \<sigma> (executionUser s))),
                          Lit '' are exceeded''], \<sigma>)
      else
        (case scope.host s of
           None \<Rightarrow> Panics NilPointerDereference
         | Some h \<Rightarrow>
             Returns (None,
               \<sigma>\<lparr>iuAt := (iuAt \<sigma>)(initialUser s :=
                     (iuAt \<sigma> (initialUser s))
                       \<lparr>executionUser.runningQueries :=
                          Suc (executionUser.runningQueries (iuAt \<sigma> (initialUser s)))\<rparr>),
                 euAt := (euAt \<sigma>)(executionUser s :=
                     (euAt \<sigma> (executionUser s))
                       \<lparr>executionUser.runningQueries :=
                          Suc (executionUser.runningQueries (euAt \<sigma> (executionUser s)))\<rparr>),
                 hostAt := (hostAt \<sigma>)(h :=
                     (hostAt \<sigma> h)
                       \<lparr>host.runningQueries := Suc (host.runningQueries (hostAt \<sigma> h))\<rparr>)\<rparr>)))"

definition scope_dec :: "scope \<Rightarrow> store \<Rightarrow> store call" where
  "scope_dec s \<sigma> =
     (case scope.host s of
        None \<Rightarrow> Panics NilPointerDereference
      | Some h \<Rightarrow>
          Returns
            (\<sigma>\<lparr>iuAt := (iuAt \<sigma>)(initialUser s :=
                  (iuAt \<sigma> (initialUser s))
                    \<lparr>executionUser.runningQueries :=
                       executionUser.runningQueries (iuAt \<sigma> (initialUser s)) - 1\<rparr>),
              euAt := (euAt \<sigma>)(executionUser s :=
                  (euAt \<sigma> (executionUser s))
                    \<lparr>executionUser.runningQueries :=
                       executionUser.runningQueries (euAt \<sigma> (executionUser s)) - 1\<rparr>),
              hostAt := (hostAt \<sigma>)(h :=
                  (hostAt \<sigma> h)
                    \<lparr>host.runningQueries := host.runningQueries (hostAt \<sigma> h) - 1\<rparr>)\<rparr>))"

section \<open>Sample stores, topologies and requests\<close>

text \<open>Concrete inputs on which the theorems below are instantiated.\<close>

definition empty_store :: store where
  "empty_store =
     \<lparr>hostAt = (\<lambda>p. \<lparr>addr = \<lparr>URL.Scheme = [], Host = []\<rparr>, runningQueries = 0\<rparr>),
      euAt = (\<lambda>p. \<lparr>name = [], password = [], maxConcurrentQueries = 0, maxExecutionTime = 0,
                    runningQueries = 0\<rparr>),
      iuAt = (\<lambda>p. \<lparr>name = [], password = [], maxConcurrentQueries = 0, maxExecutionTime = 0,
                    runningQueries = 0, toCluster = [], toUser = []\<rparr>),
      nextHost = 0, nextEU = 0, nextIU = 0, logDebug = False,
      counterAt = (\<lambda>m vs. 0)\<rparr>"

text \<open>Three hosts at the addresses 0, 1 and 2, running the given numbers of queries.\<close>

definition store_running :: "nat \<Rightarrow> nat \<Rightarrow> nat \<Rightarrow> store" where
  "store_running a b d =
     empty_store
       \<lparr>hostAt := (\<lambda>p. \<lparr>addr = \<lparr>URL.Scheme = ''http'', Host = ''node''\<rparr>,
                         runningQueries = (if p = 0 then a else if p = 1 then b else d)\<rparr>),
        nextHost := 3\<rparr>"

definition three_hosts :: cluster where
  "three_hosts = \<lparr>cluster.hosts = [0, 1, 2], cluster.users = Map.empty\<rparr>"

text \<open>
  A topology with one cluster of two hosts, one execution user and one initial user whose
  limits admit a request.
\<close>

definition sample_store :: store where
  "sample_store =
     empty_store
       \<lparr>hostAt := (\<lambda>p. \<lparr>addr = \<lparr>URL.Scheme = ''http'',
                                  Host = (if p = 0 then ''n1:8123'' else ''n2:8123'')\<rparr>,
                         runningQueries = (if p = 0 then 2 else 1)\<rparr>),
        euAt := (\<lambda>p. \<lparr>name = ''default'', password = ''secret'', maxConcurrentQueries = 5,
                       maxExecutionTime = 10000000000, runningQueries = 0\<rparr>),
        iuAt := (\<lambda>p. \<lparr>name = ''alice'', password = ''pw'', maxConcurrentQueries = 2,
                       maxExecutionTime = 30500000000, runningQueries = 0,
                       toCluster = ''c1'', toUser = ''default''\<rparr>),
        nextHost := 2, nextEU := 1, nextIU := 1\<rparr>"

definition sample_proxy :: reverseProxy where
  "sample_proxy =
     \<lparr>reverseProxy.users = [''alice'' \<mapsto> 0],
      clusters = [''c1'' \<mapsto> \<lparr>cluster.hosts = [0, 1], cluster.users = [''default'' \<mapsto> 0]\<rparr>]\<rparr>"

definition sample_request :: "string \<Rightarrow> string \<Rightarrow> Request" where
  "sample_request nm pw =
     \<lparr>BasicAuth = (nm, pw), URL = \<lparr>URL.Scheme = [], Host = ''proxy:9090''\<rparr>, UserAgent = ''curl''\<rparr>"

text \<open>The same users over a topology without the cluster, without the execution user, and
  with a cluster that has no host.\<close>

definition no_cluster_proxy :: reverseProxy where
  "no_cluster_proxy = \<lparr>reverseProxy.users = [''alice'' \<mapsto> 0], clusters = Map.empty\<rparr>"

definition no_user_proxy :: reverseProxy where
  "no_user_proxy =
     \<lparr>reverseProxy.users = [''alice'' \<mapsto> 0],
      clusters = [''c1'' \<mapsto> \<lparr>cluster.hosts = [0, 1], cluster.users = Map.empty\<rparr>]\<rparr>"

definition no_host_proxy :: reverseProxy where
  "no_host_proxy =
     \<lparr>reverseProxy.users = [''alice'' \<mapsto> 0],
      clusters = [''c1'' \<mapsto> \<lparr>cluster.hosts = [], cluster.users = [''default'' \<mapsto> 0]\<rparr>]\<rparr>"

text \<open>The sample store when the initial user already runs as many queries as its limit allows.\<close>

definition busy_store :: store where
  "busy_store =
     sample_store
       \<lparr>iuAt := (\<lambda>p. (iuAt sample_store p)\<lparr>executionUser.runningQueries := 2\<rparr>)\<rparr>"

text \<open>
  The seconds of a duration as the exact quotient, which is what \<^verbatim>\<open>Seconds\<close> returns
  where the quotient is a \<^verbatim>\<open>float64\<close>.
\<close>

definition exact_Seconds :: "Duration \<Rightarrow> real" where
  "exact_Seconds d = real_of_int d / 1000000000"

text \<open>
  A configuration with one cluster of two nodes and one execution user, and one initial
  user mapped to the given cluster and execution user; a parser that splits an address at
  \<^verbatim>\<open>://\<close>; a validation that accepts every configuration; and the proxy as
  \<^verbatim>\<open>NewReverseProxy\<close> makes it, with both maps \<^verbatim>\<open>nil\<close>.
\<close>

definition sample_config :: "string \<Rightarrow> string \<Rightarrow> Config" where
  "sample_config toC toU =
     \<lparr>Clusters =
        [\<lparr>Cluster.Name = ''c1'', Scheme = ''http'', Nodes = [''n1:8123'', ''n2:8123''],
          OutUsers = [\<lparr>OutUser.Name = ''default'', Password = ''secret'',
                       MaxConcurrentQueries = 5, MaxExecutionTime = 10000000000\<rparr>]\<rparr>],
      GlobalUsers =
        [\<lparr>OutUser.Name = ''alice'', Password = ''pw'', MaxConcurrentQueries = 2,
          MaxExecutionTime = 30500000000, ToCluster = toC, ToUser = toU\<rparr>],
      LogDebug = True\<rparr>"

definition sample_parse :: "string \<Rightarrow> error + URL" where
  "sample_parse s =
     Inr \<lparr>URL.Scheme = takeWhile (\<lambda>c. c \<noteq> CHR '':'') s,
          Host = drop 3 (dropWhile (\<lambda>c. c \<noteq> CHR '':'') s)\<rparr>"

definition accept_all :: "Config \<Rightarrow> error option" where
  "accept_all cfg = None"

definition new_proxy :: reverseProxy where
  "new_proxy = \<lparr>reverseProxy.users = Map.empty, clusters = Map.empty\<rparr>"

section \<open>Properties of the load balancer\<close>

lemma getHost_loop_Some:
  assumes "\<forall>x \<in> set xs0. host.runningQueries (hostAt \<sigma> p) < host.runningQueries (hostAt \<sigma> x)"
    and "\<forall>y \<in> set ys0. host.runningQueries (hostAt \<sigma> p) \<le> host.runningQueries (hostAt \<sigma> y)"
    and "0 < host.runningQueries (hostAt \<sigma> p)"
  shows "\<exists>xs r ys. xs0 @ p # ys0 @ ts = xs @ r # ys
           \<and> getHost_loop \<sigma> ts (Some p) = Some r
           \<and> (\<forall>x \<in> set xs. host.runningQueries (hostAt \<sigma> r) < host.runningQueries (hostAt \<sigma> x))
           \<and> (\<forall>y \<in> set ys. host.runningQueries (hostAt \<sigma> r) \<le> host.runningQueries (hostAt \<sigma> y))"
  using assms
proof (induction ts arbitrary: xs0 p ys0)
  case Nil
  then show ?case by auto
next
  case (Cons t ts)
  let ?n = "\<lambda>q. host.runningQueries (hostAt \<sigma> q)"
  show ?case
  proof (cases "?n t = 0")
    case True
    have "xs0 @ p # ys0 @ t # ts = (xs0 @ p # ys0) @ t # ts" by simp
    moreover have "getHost_loop \<sigma> (t # ts) (Some p) = Some t" using True by simp
    moreover have "\<forall>x \<in> set (xs0 @ p # ys0). ?n t < ?n x"
      using True Cons.prems by fastforce
    moreover have "\<forall>y \<in> set ts. ?n t \<le> ?n y" using True by simp
    ultimately show ?thesis by blast
  next
    case False
    show ?thesis
    proof (cases "?n p > ?n t")
      case True
      have step: "getHost_loop \<sigma> (t # ts) (Some p) = getHost_loop \<sigma> ts (Some t)"
        using False True by simp
      have "\<forall>x \<in> set (xs0 @ p # ys0). ?n t < ?n x"
        using True Cons.prems by fastforce
      moreover have "\<forall>y \<in> set []. ?n t \<le> ?n y" by simp
      moreover have "0 < ?n t" using False by simp
      ultimately obtain xs r ys where
        "(xs0 @ p # ys0) @ t # [] @ ts = xs @ r # ys"
        "getHost_loop \<sigma> ts (Some t) = Some r"
        "\<forall>x \<in> set xs. ?n r < ?n x" "\<forall>y \<in> set ys. ?n r \<le> ?n y"
        using Cons.IH [of "xs0 @ p # ys0" t "[]"] by blast
      then show ?thesis using step by auto
    next
      case keep: False
      have step: "getHost_loop \<sigma> (t # ts) (Some p) = getHost_loop \<sigma> ts (Some p)"
        using False keep by simp
      have "\<forall>y \<in> set (ys0 @ [t]). ?n p \<le> ?n y"
        using keep Cons.prems by auto
      then obtain xs r ys where
        "xs0 @ p # (ys0 @ [t]) @ ts = xs @ r # ys"
        "getHost_loop \<sigma> ts (Some p) = Some r"
        "\<forall>x \<in> set xs. ?n r < ?n x" "\<forall>y \<in> set ys. ?n r \<le> ?n y"
        using Cons.IH [of xs0 p "ys0 @ [t]"] Cons.prems by blast
      then show ?thesis using step by auto
    qed
  qed
qed

lemma getHost_loop_None:
  assumes "ts \<noteq> []"
  shows "\<exists>xs r ys. ts = xs @ r # ys
           \<and> getHost_loop \<sigma> ts None = Some r
           \<and> (\<forall>x \<in> set xs. host.runningQueries (hostAt \<sigma> r) < host.runningQueries (hostAt \<sigma> x))
           \<and> (\<forall>y \<in> set ys. host.runningQueries (hostAt \<sigma> r) \<le> host.runningQueries (hostAt \<sigma> y))"
proof -
  obtain t ts' where ts: "ts = t # ts'" using assms by (cases ts) auto
  let ?n = "\<lambda>q. host.runningQueries (hostAt \<sigma> q)"
  show ?thesis
  proof (cases "?n t = 0")
    case True
    have "ts = [] @ t # ts'" using ts by simp
    moreover have "getHost_loop \<sigma> ts None = Some t" using ts True by simp
    moreover have "\<forall>y \<in> set ts'. ?n t \<le> ?n y" using True by simp
    ultimately show ?thesis by fastforce
  next
    case False
    have step: "getHost_loop \<sigma> ts None = getHost_loop \<sigma> ts' (Some t)"
      using ts False by simp
    have "0 < ?n t" using False by simp
    then obtain xs r ys where
      "[] @ t # [] @ ts' = xs @ r # ys"
      "getHost_loop \<sigma> ts' (Some t) = Some r"
      "\<forall>x \<in> set xs. ?n r < ?n x" "\<forall>y \<in> set ys. ?n r \<le> ?n y"
      using getHost_loop_Some [of "[]" \<sigma> t "[]" ts'] by auto
    then show ?thesis using step ts by auto
  qed
qed

text \<open>
  C3. In a cluster with at least one host, \<^verbatim>\<open>getHost\<close> returns a host \<open>r\<close> of the list
  that runs the fewest queries of all: every host before \<open>r\<close> in the list runs strictly
  more and every host after it at least as many, so among the hosts that share the
  minimum it is the first in list order, and when some host runs no query the host
  returned runs none (it is the first such host, where the loop returns early). With the
  counts 0, 3, 1 it is the first host (count 0), with the counts 2, 3, 1 the third
  (count 1).
\<close>

theorem getHost_least_loaded:
  "(cluster.hosts c \<noteq> [] \<longrightarrow>
      (\<exists>xs r ys. cluster.hosts c = xs @ r # ys \<and> getHost \<sigma> c = Some r
         \<and> (\<forall>x \<in> set xs. host.runningQueries (hostAt \<sigma> r) < host.runningQueries (hostAt \<sigma> x))
         \<and> (\<forall>y \<in> set ys. host.runningQueries (hostAt \<sigma> r) \<le> host.runningQueries (hostAt \<sigma> y))
         \<and> (\<forall>h \<in> set (cluster.hosts c).
               host.runningQueries (hostAt \<sigma> r) \<le> host.runningQueries (hostAt \<sigma> h))
         \<and> ((\<exists>h \<in> set (cluster.hosts c). host.runningQueries (hostAt \<sigma> h) = 0)
               \<longrightarrow> host.runningQueries (hostAt \<sigma> r) = 0)))
   \<and> (map (\<lambda>h. host.runningQueries (hostAt \<sigma> h)) (cluster.hosts c) = [0, 3, 1]
        \<longrightarrow> getHost \<sigma> c = Some (cluster.hosts c ! 0))
   \<and> (map (\<lambda>h. host.runningQueries (hostAt \<sigma> h)) (cluster.hosts c) = [2, 3, 1]
        \<longrightarrow> getHost \<sigma> c = Some (cluster.hosts c ! 2))"
proof (intro conjI impI)
  assume ne: "cluster.hosts c \<noteq> []"
  let ?n = "\<lambda>q. host.runningQueries (hostAt \<sigma> q)"
  obtain xs r ys where d: "cluster.hosts c = xs @ r # ys"
    and g: "getHost_loop \<sigma> (cluster.hosts c) None = Some r"
    and b: "\<forall>x \<in> set xs. ?n r < ?n x" and a: "\<forall>y \<in> set ys. ?n r \<le> ?n y"
    using getHost_loop_None [OF ne, of \<sigma>] by blast
  have all: "\<forall>h \<in> set (cluster.hosts c). ?n r \<le> ?n h"
    using d a b by (auto simp: less_imp_le)
  have zero: "(\<exists>h \<in> set (cluster.hosts c). ?n h = 0) \<longrightarrow> ?n r = 0"
    using all by fastforce
  show "\<exists>xs r ys. cluster.hosts c = xs @ r # ys \<and> getHost \<sigma> c = Some r
         \<and> (\<forall>x \<in> set xs. ?n r < ?n x)
         \<and> (\<forall>y \<in> set ys. ?n r \<le> ?n y)
         \<and> (\<forall>h \<in> set (cluster.hosts c). ?n r \<le> ?n h)
         \<and> ((\<exists>h \<in> set (cluster.hosts c). ?n h = 0) \<longrightarrow> ?n r = 0)"
    using d g a b all zero unfolding getHost_def by blast
next
  assume m: "map (\<lambda>h. host.runningQueries (hostAt \<sigma> h)) (cluster.hosts c) = [0, 3, 1]"
  then obtain a b d where "cluster.hosts c = [a, b, d]" by auto
  with m show "getHost \<sigma> c = Some (cluster.hosts c ! 0)"
    by (simp add: getHost_def)
next
  assume m: "map (\<lambda>h. host.runningQueries (hostAt \<sigma> h)) (cluster.hosts c) = [2, 3, 1]"
  then obtain a b d where "cluster.hosts c = [a, b, d]" by auto
  with m show "getHost \<sigma> c = Some (cluster.hosts c ! 2)"
    by (simp add: getHost_def)
qed

theorem getHost_least_loaded_witness:
  "cluster.hosts three_hosts \<noteq> []
   \<and> map (\<lambda>h. host.runningQueries (hostAt (store_running 0 3 1) h)) (cluster.hosts three_hosts)
       = [0, 3, 1]
   \<and> getHost (store_running 0 3 1) three_hosts = Some 0
   \<and> map (\<lambda>h. host.runningQueries (hostAt (store_running 2 3 1) h)) (cluster.hosts three_hosts)
       = [2, 3, 1]
   \<and> getHost (store_running 2 3 1) three_hosts = Some 2
   \<and> (\<exists>xs ys. cluster.hosts three_hosts = xs @ 1 # ys
         \<and> getHost (store_running 2 1 1) three_hosts = Some 1)"
proof -
  have ne: "cluster.hosts three_hosts \<noteq> []"
    by (simp add: three_hosts_def)
  have a: "map (\<lambda>h. host.runningQueries (hostAt (store_running 0 3 1) h)) (cluster.hosts three_hosts)
             = [0, 3, 1]"
    by (simp add: three_hosts_def store_running_def)
  have b: "map (\<lambda>h. host.runningQueries (hostAt (store_running 2 3 1) h)) (cluster.hosts three_hosts)
             = [2, 3, 1]"
    by (simp add: three_hosts_def store_running_def)
  have ga: "getHost (store_running 0 3 1) three_hosts = Some 0"
    using getHost_least_loaded [of three_hosts "store_running 0 3 1"] a
    by (simp add: three_hosts_def)
  have gb: "getHost (store_running 2 3 1) three_hosts = Some 2"
    using getHost_least_loaded [of three_hosts "store_running 2 3 1"] b
    by (simp add: three_hosts_def)
  obtain xs r ys where d: "cluster.hosts three_hosts = xs @ r # ys"
    and g: "getHost (store_running 2 1 1) three_hosts = Some r"
    using getHost_least_loaded [of three_hosts "store_running 2 1 1"] ne by blast
  have "getHost (store_running 2 1 1) three_hosts = Some 1"
    by (simp add: getHost_def three_hosts_def store_running_def)
  with d g have "\<exists>xs ys. cluster.hosts three_hosts = xs @ 1 # ys
         \<and> getHost (store_running 2 1 1) three_hosts = Some 1"
    by auto
  with ne a b ga gb show ?thesis by blast
qed

section \<open>Properties of the metrics and the transport\<close>

lemma With_requestSum:
  "With requestSum [(''initial_user'', a), (''execution_user'', b), (''host'', c)]
     = Returns (''request_sum'', [a, b, c])"
  by (simp add: With_def requestSum_def)

lemma With_timeouts:
  "With timeouts [(''initial_user'', a), (''execution_user'', b), (''host'', c)]
     = Returns (''request_timeouts'', [a, b, c])"
  by (simp add: With_def timeouts_def)

lemma With_requestSuccess:
  "With requestSuccess [(''initial_user'', a), (''execution_user'', b), (''host'', c)]
     = Returns (''request_success'', [a, b, c])"
  by (simp add: With_def requestSuccess_def)

lemma Inc_objects [simp]:
  "iuAt (Inc k \<sigma>) = iuAt \<sigma>" "euAt (Inc k \<sigma>) = euAt \<sigma>" "hostAt (Inc k \<sigma>) = hostAt \<sigma>"
  by (simp_all add: Inc_def)

text \<open>
  C2. The claim: for every backend response, the status-code metric is incremented under
  the labels (host, code), and the increment is valid against the registered label names.
  The code registers \<^verbatim>\<open>status_codes\<close> with the label names \<^verbatim>\<open>target\<close> and
  \<^verbatim>\<open>code\<close> and calls \<^verbatim>\<open>With\<close> with \<^verbatim>\<open>host\<close> and \<^verbatim>\<open>code\<close>: for every request,
  every response that is not \<^verbatim>\<open>nil\<close> and every state of the counters, \<^verbatim>\<open>With\<close>
  panics because the label \<^verbatim>\<open>target\<close> is missing, and no counter is incremented.
\<close>

theorem RoundTrip_statusCodes_panics:
  "RoundTrip r (Some response, err) \<sigma> = Panics (LabelNameMissing ''target'')"
  by (simp add: RoundTrip_def With_def statusCodes_def)

text \<open>The sibling metric \<^verbatim>\<open>request_errors\<close> is called with the names it is registered with.\<close>

lemma RoundTrip_errors:
  "RoundTrip r (None, Some e) \<sigma>
     = Returns ((None, Some e), Inc (''request_errors'', [Host (URL r), e]) \<sigma>)"
  by (simp add: RoundTrip_def With_def errors_def)

section \<open>Properties of the dispatcher\<close>

lemma doQueries_append: "doQueries (xs @ ys) = doQueries xs @ doQueries ys"
  by (induction xs rule: doQueries.induct) simp_all

lemma doQueries_map: "doQueries (map (DoQuery q) as) = map (Pair q) as"
  by (induction as) simp_all

lemma count_dec_map: "count_list (map (DoQuery q) as) Call_dec = 0"
  by (induction as) simp_all

lemma doQueries_killQueries:
  "doQueries (killQueries \<sigma> c condition elapsed)
     = map (\<lambda>h. (''KILL QUERY WHERE '' @ condition @ '' AND elapsed >= ''
                    @ itoa (float64_to_int elapsed), URL_String (addr (hostAt \<sigma> h))))
         (cluster.hosts c)"
  unfolding killQueries_def doQueries_map by (simp add: comp_def)

lemma count_killQueries: "count_list (killQueries \<sigma> c condition elapsed) Call_dec = 0"
  unfolding killQueries_def by (rule count_dec_map)

text \<open>The transport on a response, and on an error without a response.\<close>

lemma RoundTrip_response:
  "RoundTrip fw (Some response, err) \<sigma> = Panics (LabelNameMissing ''target'')"
  by (simp add: RoundTrip_def With_def statusCodes_def)

lemma RoundTrip_no_response:
  "\<exists>\<sigma>'. RoundTrip fw (None, err) \<sigma> = Returns ((None, err), \<sigma>')"
  by (cases err) (simp_all add: RoundTrip_def With_def errors_def)

text \<open>
  The goroutine and the \<^verbatim>\<open>select\<close> statement, under the label of \<^verbatim>\<open>ServeHTTP\<close>: a
  timer case and a backend call without a response return, a backend call with a response
  ends in the panic of the transport.
\<close>

lemma ServeHTTP_select_returns:
  assumes "\<forall>response err. r \<noteq> BackendDone (Some response, err)"
  shows "\<exists>\<sigma>3 es. ServeHTTP_select Seconds s
       [(''initial_user'', a), (''execution_user'', b), (''host'', c)] ua fw r \<sigma> = (Returns \<sigma>3, es)
     \<and> count_list es Call_dec = 0
     \<and> doQueries es =
         (case r of
            InitialUserTimeout \<Rightarrow>
              map (\<lambda>h. (''KILL QUERY WHERE '' @ (''http_user_agent = '' @ [CHR 0x27] @ ua @ [CHR 0x27])
                           @ '' AND elapsed >= ''
                           @ itoa (float64_to_int (Seconds (maxExecutionTime (iuAt \<sigma> (initialUser s))))),
                         URL_String (addr (hostAt \<sigma> h))))
                (cluster.hosts (cluster s))
          | ExecutionUserTimeout \<Rightarrow>
              map (\<lambda>h. (''KILL QUERY WHERE ''
                           @ (''initial_user = '' @ [CHR 0x27] @ name (euAt \<sigma> (executionUser s)) @ [CHR 0x27])
                           @ '' AND elapsed >= ''
                           @ itoa (float64_to_int (Seconds (maxExecutionTime (euAt \<sigma> (executionUser s))))),
                         URL_String (addr (hostAt \<sigma> h))))
                (cluster.hosts (cluster s))
          | BackendDone res \<Rightarrow> [])"
proof (cases r)
  case InitialUserTimeout
  then show ?thesis
    unfolding ServeHTTP_select_def With_timeouts
    by (simp add: doQueries_append doQueries_killQueries count_killQueries del: append.simps)
next
  case ExecutionUserTimeout
  then show ?thesis
    unfolding ServeHTTP_select_def With_timeouts
    by (simp add: doQueries_append doQueries_killQueries count_killQueries del: append.simps)
next
  case (BackendDone res)
  obtain response err where res: "res = (response, err)" by (cases res)
  have "response = None" using assms BackendDone res by (cases response) auto
  then obtain \<sigma>' where "RoundTrip fw res \<sigma> = Returns ((None, err), \<sigma>')"
    using RoundTrip_no_response [of fw err \<sigma>] res by auto
  then show ?thesis
    unfolding ServeHTTP_select_def With_requestSuccess using BackendDone by simp
qed

lemma ServeHTTP_select_response:
  "ServeHTTP_select Seconds s label ua fw (BackendDone (Some response, err)) \<sigma>
     = (Panics (LabelNameMissing ''target''), [])"
  by (simp add: ServeHTTP_select_def RoundTrip_response)

text \<open>
  A run of \<^verbatim>\<open>ServeHTTP\<close> whose scope is resolved with a host and whose admission
  succeeds. When a timer fires, or the backend call ends without a response, the run ends
  with \<^verbatim>\<open>scope.dec\<close>: the call is the last event, and its result is the result of the
  run.
\<close>

lemma ServeHTTP_admitted:
  assumes "getRequestScope \<sigma> rp req = Inr s" and "inc s \<sigma> = Returns (None, \<sigma>1)"
    and "scope.host s = Some h"
    and "\<forall>response err. r \<noteq> BackendDone (Some response, err)"
  shows "\<exists>\<sigma>3 es. ServeHTTP Seconds inc dec rp req r \<sigma>
            = (dec s \<sigma>3,
               [Call_inc,
                Forward (req\<lparr>URL := (URL req)\<lparr>URL.Scheme := URL.Scheme (addr (hostAt \<sigma>1 h)),
                                              Host := Host (addr (hostAt \<sigma>1 h))\<rparr>,
                              UserAgent := ''ClickHouseProxy: '' @ name (iuAt \<sigma>1 (initialUser s))\<rparr>)]
               @ es @ [Call_dec])
     \<and> count_list es Call_dec = 0
     \<and> doQueries es = (case r of
            InitialUserTimeout \<Rightarrow>
              map (\<lambda>t. (''KILL QUERY WHERE ''
                           @ (''http_user_agent = '' @ [CHR 0x27]
                                @ (''ClickHouseProxy: '' @ name (iuAt \<sigma>1 (initialUser s))) @ [CHR 0x27])
                           @ '' AND elapsed >= ''
                           @ itoa (float64_to_int (Seconds (maxExecutionTime (iuAt \<sigma>1 (initialUser s))))),
                         URL_String (addr (hostAt \<sigma>1 t))))
                (cluster.hosts (cluster s))
          | ExecutionUserTimeout \<Rightarrow>
              map (\<lambda>t. (''KILL QUERY WHERE ''
                           @ (''initial_user = '' @ [CHR 0x27] @ name (euAt \<sigma>1 (executionUser s)) @ [CHR 0x27])
                           @ '' AND elapsed >= ''
                           @ itoa (float64_to_int (Seconds (maxExecutionTime (euAt \<sigma>1 (executionUser s))))),
                         URL_String (addr (hostAt \<sigma>1 t))))
                (cluster.hosts (cluster s))
          | BackendDone res \<Rightarrow> [])"
proof -
  let ?label = "[(''initial_user'', name (iuAt \<sigma>1 (initialUser s))),
                  (''execution_user'', name (euAt \<sigma>1 (executionUser s))),
                  (''host'', Host (addr (hostAt \<sigma>1 h)))]"
  let ?ua = "''ClickHouseProxy: '' @ name (iuAt \<sigma>1 (initialUser s))"
  let ?fw = "(req\<lparr>URL := (URL req)\<lparr>URL.Scheme := URL.Scheme (addr (hostAt \<sigma>1 h)),
                                         Host := Host (addr (hostAt \<sigma>1 h))\<rparr>,
                        UserAgent := ''ClickHouseProxy: '' @ name (iuAt \<sigma>1 (initialUser s))\<rparr>)"
  let ?k = "(''request_sum'', [name (iuAt \<sigma>1 (initialUser s)), name (euAt \<sigma>1 (executionUser s)),
                               Host (addr (hostAt \<sigma>1 h))])"
  obtain \<sigma>3 es where
    sel: "ServeHTTP_select Seconds s ?label ?ua ?fw r (Inc ?k \<sigma>1) = (Returns \<sigma>3, es)"
    and cnt: "count_list es Call_dec = 0"
    and dq: "doQueries es =
         (case r of
            InitialUserTimeout \<Rightarrow>
              map (\<lambda>h. (''KILL QUERY WHERE '' @ (''http_user_agent = '' @ [CHR 0x27] @ ?ua @ [CHR 0x27])
                           @ '' AND elapsed >= ''
                           @ itoa (float64_to_int (Seconds (maxExecutionTime (iuAt (Inc ?k \<sigma>1) (initialUser s))))),
                         URL_String (addr (hostAt (Inc ?k \<sigma>1) h))))
                (cluster.hosts (cluster s))
          | ExecutionUserTimeout \<Rightarrow>
              map (\<lambda>h. (''KILL QUERY WHERE ''
                           @ (''initial_user = '' @ [CHR 0x27] @ name (euAt (Inc ?k \<sigma>1) (executionUser s)) @ [CHR 0x27])
                           @ '' AND elapsed >= ''
                           @ itoa (float64_to_int (Seconds (maxExecutionTime (euAt (Inc ?k \<sigma>1) (executionUser s))))),
                         URL_String (addr (hostAt (Inc ?k \<sigma>1) h))))
                (cluster.hosts (cluster s))
          | BackendDone res \<Rightarrow> [])"
    using ServeHTTP_select_returns [OF assms(4), of Seconds s _ _ _ ?ua ?fw "Inc ?k \<sigma>1"] by blast
  have "ServeHTTP Seconds inc dec rp req r \<sigma>
        = (dec s \<sigma>3, [Call_inc, Forward ?fw] @ es @ [Call_dec])"
    unfolding ServeHTTP_def using assms(1-3) sel by (simp add: With_requestSum del: append.simps)
  moreover have "doQueries es = (case r of
            InitialUserTimeout \<Rightarrow>
              map (\<lambda>t. (''KILL QUERY WHERE ''
                           @ (''http_user_agent = '' @ [CHR 0x27]
                                @ (''ClickHouseProxy: '' @ name (iuAt \<sigma>1 (initialUser s))) @ [CHR 0x27])
                           @ '' AND elapsed >= ''
                           @ itoa (float64_to_int (Seconds (maxExecutionTime (iuAt \<sigma>1 (initialUser s))))),
                         URL_String (addr (hostAt \<sigma>1 t))))
                (cluster.hosts (cluster s))
          | ExecutionUserTimeout \<Rightarrow>
              map (\<lambda>t. (''KILL QUERY WHERE ''
                           @ (''initial_user = '' @ [CHR 0x27] @ name (euAt \<sigma>1 (executionUser s)) @ [CHR 0x27])
                           @ '' AND elapsed >= ''
                           @ itoa (float64_to_int (Seconds (maxExecutionTime (euAt \<sigma>1 (executionUser s))))),
                         URL_String (addr (hostAt \<sigma>1 t))))
                (cluster.hosts (cluster s))
          | BackendDone res \<Rightarrow> [])"
    using dq by (cases r) simp_all
  ultimately show ?thesis using cnt by blast
qed

text \<open>When the backend call ends with a response, the run ends in the panic of the transport.\<close>

lemma ServeHTTP_admitted_response:
  assumes "getRequestScope \<sigma> rp req = Inr s" and "inc s \<sigma> = Returns (None, \<sigma>1)"
    and "scope.host s = Some h"
  shows "ServeHTTP Seconds inc dec rp req (BackendDone (Some response, err)) \<sigma>
           = (Panics (LabelNameMissing ''target''),
              [Call_inc,
               Forward (req\<lparr>URL := (URL req)\<lparr>URL.Scheme := URL.Scheme (addr (hostAt \<sigma>1 h)),
                                             Host := Host (addr (hostAt \<sigma>1 h))\<rparr>,
                             UserAgent := ''ClickHouseProxy: '' @ name (iuAt \<sigma>1 (initialUser s))\<rparr>)])"
  unfolding ServeHTTP_def using assms
  by (simp add: With_requestSum ServeHTTP_select_response)

lemma ServeHTTP_admitted_doQueries:
  assumes "getRequestScope \<sigma> rp req = Inr s" and "inc s \<sigma> = Returns (None, \<sigma>1)"
    and "scope.host s = Some h"
  shows "doQueries (snd (ServeHTTP Seconds inc dec rp req r \<sigma>)) = (case r of
            InitialUserTimeout \<Rightarrow>
              map (\<lambda>t. (''KILL QUERY WHERE ''
                           @ (''http_user_agent = '' @ [CHR 0x27]
                                @ (''ClickHouseProxy: '' @ name (iuAt \<sigma>1 (initialUser s))) @ [CHR 0x27])
                           @ '' AND elapsed >= ''
                           @ itoa (float64_to_int (Seconds (maxExecutionTime (iuAt \<sigma>1 (initialUser s))))),
                         URL_String (addr (hostAt \<sigma>1 t))))
                (cluster.hosts (cluster s))
          | ExecutionUserTimeout \<Rightarrow>
              map (\<lambda>t. (''KILL QUERY WHERE ''
                           @ (''initial_user = '' @ [CHR 0x27] @ name (euAt \<sigma>1 (executionUser s)) @ [CHR 0x27])
                           @ '' AND elapsed >= ''
                           @ itoa (float64_to_int (Seconds (maxExecutionTime (euAt \<sigma>1 (executionUser s))))),
                         URL_String (addr (hostAt \<sigma>1 t))))
                (cluster.hosts (cluster s))
          | BackendDone res \<Rightarrow> [])"
proof (cases "\<forall>response err. r \<noteq> BackendDone (Some response, err)")
  case True
  obtain \<sigma>3 es where
    run: "ServeHTTP Seconds inc dec rp req r \<sigma>
            = (dec s \<sigma>3,
               [Call_inc,
                Forward (req\<lparr>URL := (URL req)\<lparr>URL.Scheme := URL.Scheme (addr (hostAt \<sigma>1 h)),
                                              Host := Host (addr (hostAt \<sigma>1 h))\<rparr>,
                              UserAgent := ''ClickHouseProxy: '' @ name (iuAt \<sigma>1 (initialUser s))\<rparr>)]
               @ es @ [Call_dec])"
    and dq: "doQueries es = (case r of
            InitialUserTimeout \<Rightarrow>
              map (\<lambda>t. (''KILL QUERY WHERE ''
                           @ (''http_user_agent = '' @ [CHR 0x27]
                                @ (''ClickHouseProxy: '' @ name (iuAt \<sigma>1 (initialUser s))) @ [CHR 0x27])
                           @ '' AND elapsed >= ''
                           @ itoa (float64_to_int (Seconds (maxExecutionTime (iuAt \<sigma>1 (initialUser s))))),
                         URL_String (addr (hostAt \<sigma>1 t))))
                (cluster.hosts (cluster s))
          | ExecutionUserTimeout \<Rightarrow>
              map (\<lambda>t. (''KILL QUERY WHERE ''
                           @ (''initial_user = '' @ [CHR 0x27] @ name (euAt \<sigma>1 (executionUser s)) @ [CHR 0x27])
                           @ '' AND elapsed >= ''
                           @ itoa (float64_to_int (Seconds (maxExecutionTime (euAt \<sigma>1 (executionUser s))))),
                         URL_String (addr (hostAt \<sigma>1 t))))
                (cluster.hosts (cluster s))
          | BackendDone res \<Rightarrow> [])"
    using ServeHTTP_admitted [of \<sigma> rp req s inc \<sigma>1 h r Seconds dec] assms True by blast
  have "doQueries (snd (ServeHTTP Seconds inc dec rp req r \<sigma>)) = doQueries es"
    unfolding run by (simp add: doQueries_append)
  then show ?thesis using dq by simp
next
  case False
  then obtain response err where r: "r = BackendDone (Some response, err)" by blast
  show ?thesis
    unfolding r ServeHTTP_admitted_response [of \<sigma> rp req s inc \<sigma>1 h, OF assms] by simp
qed

lemma sample_scope:
  "getRequestScope sample_store sample_proxy (sample_request ''alice'' ''pw'')
     = Inr \<lparr>initialUser = 0, executionUser = 0,
            cluster = \<lparr>cluster.hosts = [0, 1], cluster.users = [''default'' \<mapsto> 0]\<rparr>,
            host = Some 1\<rparr>"
  by (simp add: getRequestScope_def basicAuth_def sample_request_def sample_proxy_def
      sample_store_def empty_store_def getHost_def)

lemma sample_inc:
  "\<exists>\<sigma>1. scope_inc \<lparr>initialUser = 0, executionUser = 0,
            cluster = \<lparr>cluster.hosts = [0, 1], cluster.users = [''default'' \<mapsto> 0]\<rparr>,
            host = Some 1\<rparr> sample_store = Returns (None, \<sigma>1)
      \<and> iuAt \<sigma>1 0 = (iuAt sample_store 0)\<lparr>executionUser.runningQueries := 1\<rparr>
      \<and> euAt \<sigma>1 0 = (euAt sample_store 0)\<lparr>executionUser.runningQueries := 1\<rparr>
      \<and> addr (hostAt \<sigma>1 0) = addr (hostAt sample_store 0)
      \<and> addr (hostAt \<sigma>1 1) = addr (hostAt sample_store 1)"
  by (simp add: scope_inc_def sample_store_def empty_store_def)



text \<open>
  C6. For a request whose scope is resolved with a host and whose admission succeeds: when
  the initial user's timer fires, \<^verbatim>\<open>doQuery\<close> is called once per host of the cluster,
  in list order, with the host's address and the statement
  \<^verbatim>\<open>KILL QUERY WHERE http_user_agent = 'ClickHouseProxy: <initial user's name>' AND elapsed >= <n>\<close>,
  where \<open>n\<close> is the initial user's \<^verbatim>\<open>maxExecutionTime\<close> in seconds with the fraction
  discarded; when the execution user's timer fires, the statement is
  \<^verbatim>\<open>KILL QUERY WHERE initial_user = '<execution user's name>' AND elapsed >= <n>\<close> with the
  execution user's \<^verbatim>\<open>maxExecutionTime\<close>; when the backend call completes first, no
  statement is sent.
\<close>

theorem killQueries_statement:
  assumes "getRequestScope \<sigma> rp req = Inr s" and "inc s \<sigma> = Returns (None, \<sigma>1)"
    and "scope.host s = Some h"
  shows "doQueries (snd (ServeHTTP Seconds inc dec rp req InitialUserTimeout \<sigma>))
           = map (\<lambda>t. (''KILL QUERY WHERE ''
                          @ (''http_user_agent = '' @ [CHR 0x27]
                               @ (''ClickHouseProxy: '' @ name (iuAt \<sigma>1 (initialUser s)))
                               @ [CHR 0x27])
                          @ '' AND elapsed >= ''
                          @ itoa (float64_to_int (Seconds (maxExecutionTime (iuAt \<sigma>1 (initialUser s))))),
                        URL_String (addr (hostAt \<sigma>1 t))))
               (cluster.hosts (cluster s))
       \<and> doQueries (snd (ServeHTTP Seconds inc dec rp req ExecutionUserTimeout \<sigma>))
           = map (\<lambda>t. (''KILL QUERY WHERE ''
                          @ (''initial_user = '' @ [CHR 0x27]
                               @ name (euAt \<sigma>1 (executionUser s)) @ [CHR 0x27])
                          @ '' AND elapsed >= ''
                          @ itoa (float64_to_int (Seconds (maxExecutionTime (euAt \<sigma>1 (executionUser s))))),
                        URL_String (addr (hostAt \<sigma>1 t))))
               (cluster.hosts (cluster s))
       \<and> doQueries (snd (ServeHTTP Seconds inc dec rp req (BackendDone res) \<sigma>)) = []"
  using ServeHTTP_admitted_doQueries [of \<sigma> rp req s inc \<sigma>1 h Seconds dec InitialUserTimeout, OF assms]
    ServeHTTP_admitted_doQueries [of \<sigma> rp req s inc \<sigma>1 h Seconds dec ExecutionUserTimeout, OF assms]
    ServeHTTP_admitted_doQueries [of \<sigma> rp req s inc \<sigma>1 h Seconds dec "BackendDone res", OF assms]
  by simp

lemma itoa_30: "itoa (float64_to_int (exact_Seconds 30500000000)) = ''30''"
  by (simp add: exact_Seconds_def float64_to_int_def itoa_def digit_def)

lemma itoa_10: "itoa (float64_to_int (exact_Seconds 10000000000)) = ''10''"
  by (simp add: exact_Seconds_def float64_to_int_def itoa_def digit_def)

theorem killQueries_statement_witness:
  "getRequestScope sample_store sample_proxy (sample_request ''alice'' ''pw'')
     = Inr \<lparr>initialUser = 0, executionUser = 0,
            cluster = \<lparr>cluster.hosts = [0, 1], cluster.users = [''default'' \<mapsto> 0]\<rparr>,
            host = Some 1\<rparr>
   \<and> doQueries (snd (ServeHTTP exact_Seconds scope_inc scope_dec sample_proxy
                       (sample_request ''alice'' ''pw'') InitialUserTimeout sample_store))
       = [(''KILL QUERY WHERE http_user_agent = '' @ [CHR 0x27] @ ''ClickHouseProxy: alice''
             @ [CHR 0x27] @ '' AND elapsed >= 30'', ''http://n1:8123''),
          (''KILL QUERY WHERE http_user_agent = '' @ [CHR 0x27] @ ''ClickHouseProxy: alice''
             @ [CHR 0x27] @ '' AND elapsed >= 30'', ''http://n2:8123'')]
   \<and> doQueries (snd (ServeHTTP exact_Seconds scope_inc scope_dec sample_proxy
                       (sample_request ''alice'' ''pw'') ExecutionUserTimeout sample_store))
       = [(''KILL QUERY WHERE initial_user = '' @ [CHR 0x27] @ ''default''
             @ [CHR 0x27] @ '' AND elapsed >= 10'', ''http://n1:8123''),
          (''KILL QUERY WHERE initial_user = '' @ [CHR 0x27] @ ''default''
             @ [CHR 0x27] @ '' AND elapsed >= 10'', ''http://n2:8123'')]"
proof -
  let ?s = "\<lparr>initialUser = 0, executionUser = 0,
            cluster = \<lparr>cluster.hosts = [0, 1], cluster.users = [''default'' \<mapsto> 0]\<rparr>,
            host = Some 1\<rparr>"
  obtain \<sigma>1 where inc: "scope_inc ?s sample_store = Returns (None, \<sigma>1)"
    and iu: "iuAt \<sigma>1 0 = (iuAt sample_store 0)\<lparr>executionUser.runningQueries := 1\<rparr>"
    and eu: "euAt \<sigma>1 0 = (euAt sample_store 0)\<lparr>executionUser.runningQueries := 1\<rparr>"
    and h0: "addr (hostAt \<sigma>1 0) = addr (hostAt sample_store 0)"
    and h1: "addr (hostAt \<sigma>1 1) = addr (hostAt sample_store 1)"
    using sample_inc by blast
  have h: "scope.host ?s = Some 1" by simp
  note k = killQueries_statement [of sample_store sample_proxy "sample_request ''alice'' ''pw''"
      ?s scope_inc \<sigma>1 1 exact_Seconds scope_dec, OF sample_scope inc h]
  have vals: "name (iuAt \<sigma>1 0) = ''alice''" "maxExecutionTime (iuAt \<sigma>1 0) = 30500000000"
    "name (euAt \<sigma>1 0) = ''default''" "maxExecutionTime (euAt \<sigma>1 0) = 10000000000"
    "URL_String (addr (hostAt \<sigma>1 0)) = ''http://n1:8123''"
    "URL_String (addr (hostAt \<sigma>1 1)) = ''http://n2:8123''"
    unfolding iu eu h0 h1 by (simp_all add: sample_store_def empty_store_def URL_String_def)
  have v1: "URL_String (addr (hostAt \<sigma>1 (Suc 0))) = ''http://n2:8123''"
    using vals(6) by simp
  show ?thesis
    using k sample_scope by (simp add: vals v1 itoa_30 itoa_10)
qed

lemma map_fst_const: "map fst (map (\<lambda>t. (q, f t)) xs) = replicate (length xs) q"
  by (induction xs) simp_all

text \<open>
  C7. The claim: when the execution user's timer fires, the name in the condition of the
  termination command is the initial user's. As amended: when the execution user's timer
  fires, every termination command is
  \<^verbatim>\<open>KILL QUERY WHERE initial_user = '<execution user's name>' AND elapsed >= <n>\<close>: the
  name in the condition is the execution user's, not the initial user's, and the bound is
  the execution user's limit.
\<close>

theorem execution_timeout_names_execution_user:
  assumes "getRequestScope \<sigma> rp req = Inr s" and "inc s \<sigma> = Returns (None, \<sigma>1)"
    and "scope.host s = Some h"
  shows "map fst (doQueries (snd (ServeHTTP Seconds inc dec rp req ExecutionUserTimeout \<sigma>)))
           = replicate (length (cluster.hosts (cluster s)))
               (''KILL QUERY WHERE ''
                  @ (''initial_user = '' @ [CHR 0x27]
                       @ name (euAt \<sigma>1 (executionUser s)) @ [CHR 0x27])
                  @ '' AND elapsed >= ''
                  @ itoa (float64_to_int (Seconds (maxExecutionTime (euAt \<sigma>1 (executionUser s))))))"
proof -
  have "doQueries (snd (ServeHTTP Seconds inc dec rp req ExecutionUserTimeout \<sigma>))
          = map (\<lambda>t. (''KILL QUERY WHERE ''
                         @ (''initial_user = '' @ [CHR 0x27] @ name (euAt \<sigma>1 (executionUser s)) @ [CHR 0x27])
                         @ '' AND elapsed >= ''
                         @ itoa (float64_to_int (Seconds (maxExecutionTime (euAt \<sigma>1 (executionUser s))))),
                       URL_String (addr (hostAt \<sigma>1 t))))
              (cluster.hosts (cluster s))"
    using ServeHTTP_admitted_doQueries [of \<sigma> rp req s inc \<sigma>1 h Seconds dec ExecutionUserTimeout,
        OF assms]
    by simp
  then show ?thesis by (simp only: map_fst_const)
qed

theorem execution_timeout_names_execution_user_witness:
  "getRequestScope sample_store sample_proxy (sample_request ''alice'' ''pw'')
     = Inr \<lparr>initialUser = 0, executionUser = 0,
            cluster = \<lparr>cluster.hosts = [0, 1], cluster.users = [''default'' \<mapsto> 0]\<rparr>,
            host = Some 1\<rparr>
   \<and> map fst (doQueries (snd (ServeHTTP exact_Seconds scope_inc scope_dec sample_proxy
                       (sample_request ''alice'' ''pw'') ExecutionUserTimeout sample_store)))
       = [''KILL QUERY WHERE initial_user = '' @ [CHR 0x27] @ ''default''
             @ [CHR 0x27] @ '' AND elapsed >= 10'',
          ''KILL QUERY WHERE initial_user = '' @ [CHR 0x27] @ ''default''
             @ [CHR 0x27] @ '' AND elapsed >= 10'']"
proof -
  let ?s = "\<lparr>initialUser = 0, executionUser = 0,
            cluster = \<lparr>cluster.hosts = [0, 1], cluster.users = [''default'' \<mapsto> 0]\<rparr>,
            host = Some 1\<rparr>"
  obtain \<sigma>1 where inc: "scope_inc ?s sample_store = Returns (None, \<sigma>1)"
    and eu: "euAt \<sigma>1 0 = (euAt sample_store 0)\<lparr>executionUser.runningQueries := 1\<rparr>"
    using sample_inc by blast
  have h: "scope.host ?s = Some 1" by simp
  note k = execution_timeout_names_execution_user [of sample_store sample_proxy
      "sample_request ''alice'' ''pw''" ?s scope_inc \<sigma>1 1 exact_Seconds scope_dec,
      OF sample_scope inc h]
  have vals: "name (euAt \<sigma>1 0) = ''default''" "maxExecutionTime (euAt \<sigma>1 0) = 10000000000"
    unfolding eu by (simp_all add: sample_store_def empty_store_def)
  have two: "replicate (length [0, 1 :: nat]) x = [x, x]" for x :: string
    by (simp add: numeral_2_eq_2)
  show ?thesis
    using k sample_scope by (simp add: vals itoa_10 two)
qed

text \<open>
  The claim as stated fails on the sample topology, where the initial user \<^verbatim>\<open>alice\<close> is
  mapped to the execution user \<^verbatim>\<open>default\<close>: the statements name \<^verbatim>\<open>default\<close>.
\<close>

theorem execution_timeout_names_initial_user_counterexample:
  "name (iuAt sample_store 0) = ''alice''
   \<and> getRequestScope sample_store sample_proxy (sample_request ''alice'' ''pw'')
     = Inr \<lparr>initialUser = 0, executionUser = 0,
            cluster = \<lparr>cluster.hosts = [0, 1], cluster.users = [''default'' \<mapsto> 0]\<rparr>,
            host = Some 1\<rparr>
   \<and> map fst (doQueries (snd (ServeHTTP exact_Seconds scope_inc scope_dec sample_proxy
                       (sample_request ''alice'' ''pw'') ExecutionUserTimeout sample_store)))
       \<noteq> [''KILL QUERY WHERE initial_user = '' @ [CHR 0x27] @ ''alice''
             @ [CHR 0x27] @ '' AND elapsed >= 10'',
          ''KILL QUERY WHERE initial_user = '' @ [CHR 0x27] @ ''alice''
             @ [CHR 0x27] @ '' AND elapsed >= 10'']
   \<and> map fst (doQueries (snd (ServeHTTP exact_Seconds scope_inc scope_dec sample_proxy
                       (sample_request ''alice'' ''pw'') ExecutionUserTimeout sample_store)))
       = [''KILL QUERY WHERE initial_user = '' @ [CHR 0x27] @ ''default''
             @ [CHR 0x27] @ '' AND elapsed >= 10'',
          ''KILL QUERY WHERE initial_user = '' @ [CHR 0x27] @ ''default''
             @ [CHR 0x27] @ '' AND elapsed >= 10'']"
proof -
  have run: "map fst (doQueries (snd (ServeHTTP exact_Seconds scope_inc scope_dec sample_proxy
                       (sample_request ''alice'' ''pw'') ExecutionUserTimeout sample_store)))
       = [''KILL QUERY WHERE initial_user = '' @ [CHR 0x27] @ ''default''
             @ [CHR 0x27] @ '' AND elapsed >= 10'',
          ''KILL QUERY WHERE initial_user = '' @ [CHR 0x27] @ ''default''
             @ [CHR 0x27] @ '' AND elapsed >= 10'']"
    unfolding ServeHTTP_def sample_scope
    by (simp add: scope_inc_def scope_dec_def sample_store_def empty_store_def With_requestSum
        ServeHTTP_select_def With_timeouts killQueries_def Inc_def itoa_10 URL_String_def)
  have nm: "name (iuAt sample_store 0) = ''alice''"
    by (simp add: sample_store_def empty_store_def)
  show ?thesis unfolding run using nm sample_scope by simp
qed

section \<open>Properties of the scope resolver\<close>

text \<open>
  C8. A request whose user name is not a known initial user, and a request with the same
  user name that is known but whose password does not match, get the same error from
  \<^verbatim>\<open>getRequestScope\<close>, and \<^verbatim>\<open>ServeHTTP\<close> does the same in both cases: it hands
  that error to \<^verbatim>\<open>respondWithErr\<close> and nothing else.
\<close>

theorem getRequestScope_auth_failure_uniform:
  assumes "fst (basicAuth req1) = fst (basicAuth req2)"
    and "reverseProxy.users rp1 (fst (basicAuth req1)) = None"
    and "reverseProxy.users rp2 (fst (basicAuth req2)) = Some iu"
    and "password (iuAt \<sigma>2 iu) \<noteq> snd (basicAuth req2)"
  shows "getRequestScope \<sigma>1 rp1 req1
           = Inl [Lit ''invalid username or password for user '', Q (fst (basicAuth req1))]
       \<and> getRequestScope \<sigma>2 rp2 req2 = getRequestScope \<sigma>1 rp1 req1
       \<and> snd (ServeHTTP Seconds inc dec rp1 req1 r1 \<sigma>1)
           = [RespondWithErr [Lit ''invalid username or password for user '', Q (fst (basicAuth req1))]]
       \<and> snd (ServeHTTP Seconds inc dec rp2 req2 r2 \<sigma>2)
           = snd (ServeHTTP Seconds inc dec rp1 req1 r1 \<sigma>1)"
proof -
  have a: "getRequestScope \<sigma>1 rp1 req1
           = Inl [Lit ''invalid username or password for user '', Q (fst (basicAuth req1))]"
    using assms(2) by (cases "basicAuth req1") (simp add: getRequestScope_def)
  have b: "getRequestScope \<sigma>2 rp2 req2
           = Inl [Lit ''invalid username or password for user '', Q (fst (basicAuth req1))]"
    using assms(1,3,4) by (cases "basicAuth req2") (simp add: getRequestScope_def)
  show ?thesis using a b by (simp add: ServeHTTP_def)
qed

theorem getRequestScope_auth_failure_uniform_witness:
  "fst (basicAuth (sample_request ''bob'' ''x'')) = fst (basicAuth (sample_request ''bob'' ''y''))
   \<and> reverseProxy.users no_cluster_proxy (fst (basicAuth (sample_request ''bob'' ''x''))) = None
   \<and> reverseProxy.users (sample_proxy\<lparr>reverseProxy.users := [''bob'' \<mapsto> 0]\<rparr>)
         (fst (basicAuth (sample_request ''bob'' ''y''))) = Some 0
   \<and> password (iuAt sample_store 0) \<noteq> snd (basicAuth (sample_request ''bob'' ''y''))
   \<and> getRequestScope sample_store no_cluster_proxy (sample_request ''bob'' ''x'')
       = Inl [Lit ''invalid username or password for user '', Q ''bob'']
   \<and> getRequestScope sample_store (sample_proxy\<lparr>reverseProxy.users := [''bob'' \<mapsto> 0]\<rparr>)
         (sample_request ''bob'' ''y'')
       = Inl [Lit ''invalid username or password for user '', Q ''bob'']"
proof -
  have a: "fst (basicAuth (sample_request ''bob'' ''x'')) = fst (basicAuth (sample_request ''bob'' ''y''))"
    by (simp add: basicAuth_def sample_request_def)
  have b: "reverseProxy.users no_cluster_proxy (fst (basicAuth (sample_request ''bob'' ''x''))) = None"
    by (simp add: basicAuth_def sample_request_def no_cluster_proxy_def)
  have c: "reverseProxy.users (sample_proxy\<lparr>reverseProxy.users := [''bob'' \<mapsto> 0]\<rparr>)
         (fst (basicAuth (sample_request ''bob'' ''y''))) = Some 0"
    by (simp add: basicAuth_def sample_request_def)
  have d: "password (iuAt sample_store 0) \<noteq> snd (basicAuth (sample_request ''bob'' ''y''))"
    by (simp add: basicAuth_def sample_request_def sample_store_def empty_store_def)
  have n: "fst (basicAuth (sample_request ''bob'' ''x'')) = ''bob''"
    by (simp add: basicAuth_def sample_request_def)
  show ?thesis
    using getRequestScope_auth_failure_uniform [OF a b c d, of sample_store] a b c d
    unfolding n by simp
qed

text \<open>
  C9. For a request that passes the check of user name and password, when the initial
  user's \<^verbatim>\<open>toCluster\<close> is not a cluster of the proxy, or its \<^verbatim>\<open>toUser\<close> is not an
  execution user of that cluster, \<^verbatim>\<open>getRequestScope\<close> fails with an error whose message
  begins with \<^verbatim>\<open>BUG: \<close>; it is not the error of a failed authentication, for any user
  name, and its text differs from that error's however the library prints the arguments.
\<close>

theorem getRequestScope_dangling_reference:
  assumes "basicAuth req = (nm, pw)"
    and "reverseProxy.users rp nm = Some iu"
    and "password (iuAt \<sigma> iu) = pw"
    and "clusters rp (toCluster (iuAt \<sigma> iu)) = None
         \<or> (\<exists>c. clusters rp (toCluster (iuAt \<sigma> iu)) = Some c
                \<and> cluster.users c (toUser (iuAt \<sigma> iu)) = None)"
  shows "\<exists>e rest. getRequestScope \<sigma> rp req = Inl e
           \<and> e = Lit ''BUG: user '' # rest
           \<and> (\<forall>n. e \<noteq> [Lit ''invalid username or password for user '', Q n])
           \<and> (\<forall>q v. take 5 (render q v e) = ''BUG: '')
           \<and> (\<forall>q v n. render q v e
                         \<noteq> render q v [Lit ''invalid username or password for user '', Q n])"
proof -
  obtain e rest where g: "getRequestScope \<sigma> rp req = Inl e" and e: "e = Lit ''BUG: user '' # rest"
    using assms by (auto simp: getRequestScope_def)
  have "take 5 (render q v e) = ''BUG: ''" for q v
    unfolding e by simp
  moreover have "render q v e \<noteq> render q v [Lit ''invalid username or password for user '', Q n]"
    for q v n
    unfolding e by simp
  moreover have "e \<noteq> [Lit ''invalid username or password for user '', Q n]" for n
    unfolding e by simp
  ultimately show ?thesis using g e by blast
qed

theorem getRequestScope_dangling_reference_witness:
  "getRequestScope sample_store no_cluster_proxy (sample_request ''alice'' ''pw'')
     = Inl [Lit ''BUG: user '', Q ''alice'', Lit '' matches to unknown cluster '', Q ''c1'']
   \<and> getRequestScope sample_store no_user_proxy (sample_request ''alice'' ''pw'')
     = Inl [Lit ''BUG: user '', Q ''alice'', Lit '' matches to unknown user '', Q ''default'',
            Lit '' at cluster '', Q ''c1'']
   \<and> (\<exists>e rest. getRequestScope sample_store no_cluster_proxy (sample_request ''alice'' ''pw'') = Inl e
          \<and> e = Lit ''BUG: user '' # rest)
   \<and> (\<exists>e rest. getRequestScope sample_store no_user_proxy (sample_request ''alice'' ''pw'') = Inl e
          \<and> e = Lit ''BUG: user '' # rest)"
proof -
  have a: "basicAuth (sample_request ''alice'' ''pw'') = (''alice'', ''pw'')"
    by (simp add: basicAuth_def sample_request_def)
  have b1: "reverseProxy.users no_cluster_proxy ''alice'' = Some 0"
    by (simp add: no_cluster_proxy_def)
  have b2: "reverseProxy.users no_user_proxy ''alice'' = Some 0"
    by (simp add: no_user_proxy_def)
  have c: "password (iuAt sample_store 0) = ''pw''"
    by (simp add: sample_store_def empty_store_def)
  have d1: "clusters no_cluster_proxy (toCluster (iuAt sample_store 0)) = None
         \<or> (\<exists>c. clusters no_cluster_proxy (toCluster (iuAt sample_store 0)) = Some c
                \<and> cluster.users c (toUser (iuAt sample_store 0)) = None)"
    by (simp add: no_cluster_proxy_def)
  have d2: "clusters no_user_proxy (toCluster (iuAt sample_store 0)) = None
         \<or> (\<exists>c. clusters no_user_proxy (toCluster (iuAt sample_store 0)) = Some c
                \<and> cluster.users c (toUser (iuAt sample_store 0)) = None)"
    by (simp add: no_user_proxy_def sample_store_def empty_store_def)
  have e1: "getRequestScope sample_store no_cluster_proxy (sample_request ''alice'' ''pw'')
     = Inl [Lit ''BUG: user '', Q ''alice'', Lit '' matches to unknown cluster '', Q ''c1'']"
    by (simp add: getRequestScope_def a no_cluster_proxy_def sample_store_def empty_store_def)
  have e2: "getRequestScope sample_store no_user_proxy (sample_request ''alice'' ''pw'')
     = Inl [Lit ''BUG: user '', Q ''alice'', Lit '' matches to unknown user '', Q ''default'',
            Lit '' at cluster '', Q ''c1'']"
    by (simp add: getRequestScope_def a no_user_proxy_def sample_store_def empty_store_def)
  from getRequestScope_dangling_reference [OF a b1 c d1]
  have f1: "\<exists>e rest. getRequestScope sample_store no_cluster_proxy (sample_request ''alice'' ''pw'') = Inl e
          \<and> e = Lit ''BUG: user '' # rest" by blast
  from getRequestScope_dangling_reference [OF a b2 c d2]
  have f2: "\<exists>e rest. getRequestScope sample_store no_user_proxy (sample_request ''alice'' ''pw'') = Inl e
          \<and> e = Lit ''BUG: user '' # rest" by blast
  show ?thesis using e1 e2 f1 f2 by blast
qed

text \<open>
  C10. The claim: for a cluster whose host list is empty, \<^verbatim>\<open>getHost\<close> returns
  \<^verbatim>\<open>nil\<close>, \<^verbatim>\<open>getRequestScope\<close> returns a scope with that host and no error, and
  \<^verbatim>\<open>ServeHTTP\<close> then reads the address of the \<^verbatim>\<open>nil\<close> host. As amended: for a cluster
  whose host list is empty, \<^verbatim>\<open>getHost\<close> returns \<^verbatim>\<open>nil\<close>; a request that
  authenticates and is mapped to such a cluster and to an execution user of it gets a scope
  from \<^verbatim>\<open>getRequestScope\<close>, not an error, and the scope's host is \<^verbatim>\<open>nil\<close>;
  \<^verbatim>\<open>ServeHTTP\<close> has no check of its own: it calls \<^verbatim>\<open>scope.inc\<close> on that scope and the
  run ends right after the call, with no backend call started and \<^verbatim>\<open>scope.dec\<close> never
  called: with the error handed to \<^verbatim>\<open>respondWithErr\<close> when \<^verbatim>\<open>scope.inc\<close> returns
  an error, with the panic of \<^verbatim>\<open>scope.inc\<close> when it panics, and with the panic on the
  \<^verbatim>\<open>nil\<close> pointer, where \<^verbatim>\<open>ServeHTTP\<close> reads the host's address, when
  \<^verbatim>\<open>scope.inc\<close> returns without error.
\<close>

theorem empty_cluster_nil_host:
  assumes "cluster.hosts c = []"
  shows "getHost \<sigma> c = None
     \<and> (basicAuth req = (nm, pw) \<and> reverseProxy.users rp nm = Some iu
          \<and> password (iuAt \<sigma> iu) = pw
          \<and> clusters rp (toCluster (iuAt \<sigma> iu)) = Some c
          \<and> cluster.users c (toUser (iuAt \<sigma> iu)) = Some eu
        \<longrightarrow> getRequestScope \<sigma> rp req
              = Inr \<lparr>initialUser = iu, executionUser = eu, cluster = c, host = None\<rparr>
            \<and> ServeHTTP Seconds inc dec rp req r \<sigma>
              = (case inc \<lparr>initialUser = iu, executionUser = eu, cluster = c, host = None\<rparr> \<sigma> of
                   Panics p \<Rightarrow> (Panics p, [Call_inc])
                 | Returns (Some err, \<sigma>1) \<Rightarrow> (Returns \<sigma>1, [Call_inc, RespondWithErr err])
                 | Returns (None, \<sigma>1) \<Rightarrow> (Panics NilPointerDereference, [Call_inc])))"
proof -
  have g: "getHost \<sigma> c = None" using assms by (simp add: getHost_def)
  show ?thesis
    using g by (auto simp: getRequestScope_def ServeHTTP_def split: call.splits option.splits)
qed

text \<open>
  With the admission controller as the spec describes it: on the sample topology whose
  cluster has no host the run ends in a panic on the \<^verbatim>\<open>nil\<close> pointer, and when the
  initial user's limit is reached the request is refused.
\<close>

theorem empty_cluster_nil_host_witness:
  "getHost sample_store \<lparr>cluster.hosts = [], cluster.users = [''default'' \<mapsto> 0]\<rparr> = None
   \<and> getRequestScope sample_store no_host_proxy (sample_request ''alice'' ''pw'')
       = Inr \<lparr>initialUser = 0, executionUser = 0,
              cluster = \<lparr>cluster.hosts = [], cluster.users = [''default'' \<mapsto> 0]\<rparr>, host = None\<rparr>
   \<and> ServeHTTP exact_Seconds scope_inc scope_dec no_host_proxy (sample_request ''alice'' ''pw'')
         (BackendDone (Some \<lparr>Status = ''200 OK''\<rparr>, None)) sample_store
       = (Panics NilPointerDereference, [Call_inc])
   \<and> (\<exists>err. ServeHTTP exact_Seconds scope_inc scope_dec no_host_proxy
                (sample_request ''alice'' ''pw'')
                (BackendDone (Some \<lparr>Status = ''200 OK''\<rparr>, None)) busy_store
              = (Returns busy_store, [Call_inc, RespondWithErr err]))"
proof -
  let ?c = "\<lparr>cluster.hosts = [], cluster.users = [''default'' \<mapsto> 0]\<rparr>"
  let ?s = "\<lparr>initialUser = 0, executionUser = 0, cluster = ?c, host = None\<rparr>"
  let ?r = "BackendDone (Some \<lparr>Status = ''200 OK''\<rparr>, None)"
  have h: "cluster.hosts ?c = []" by simp
  have pre: "basicAuth (sample_request ''alice'' ''pw'') = (''alice'', ''pw'')
       \<and> reverseProxy.users no_host_proxy ''alice'' = Some 0
       \<and> password (iuAt sample_store 0) = ''pw''
       \<and> clusters no_host_proxy (toCluster (iuAt sample_store 0)) = Some ?c
       \<and> cluster.users ?c (toUser (iuAt sample_store 0)) = Some 0"
    by (simp add: basicAuth_def sample_request_def no_host_proxy_def sample_store_def empty_store_def)
  have pre_busy: "basicAuth (sample_request ''alice'' ''pw'') = (''alice'', ''pw'')
       \<and> reverseProxy.users no_host_proxy ''alice'' = Some 0
       \<and> password (iuAt busy_store 0) = ''pw''
       \<and> clusters no_host_proxy (toCluster (iuAt busy_store 0)) = Some ?c
       \<and> cluster.users ?c (toUser (iuAt busy_store 0)) = Some 0"
    by (simp add: basicAuth_def sample_request_def no_host_proxy_def busy_store_def
        sample_store_def empty_store_def)
  have inc: "scope_inc ?s sample_store = Panics NilPointerDereference"
    by (simp add: scope_inc_def sample_store_def empty_store_def)
  have inc_busy: "\<exists>err. scope_inc ?s busy_store = Returns (Some err, busy_store)"
    by (simp add: scope_inc_def busy_store_def sample_store_def empty_store_def)
  note t = empty_cluster_nil_host [OF h, of sample_store "sample_request ''alice'' ''pw''"
      "''alice''" "''pw''" no_host_proxy 0 0 exact_Seconds scope_inc scope_dec ?r]
  note tb = empty_cluster_nil_host [OF h, of busy_store "sample_request ''alice'' ''pw''"
      "''alice''" "''pw''" no_host_proxy 0 0 exact_Seconds scope_inc scope_dec ?r]
  have a: "getHost sample_store ?c = None" using t by blast
  have b: "getRequestScope sample_store no_host_proxy (sample_request ''alice'' ''pw'') = Inr ?s"
    using t pre by blast
  have "ServeHTTP exact_Seconds scope_inc scope_dec no_host_proxy (sample_request ''alice'' ''pw'')
          ?r sample_store
        = (case scope_inc ?s sample_store of
             Panics p \<Rightarrow> (Panics p, [Call_inc])
           | Returns (Some err, \<sigma>1) \<Rightarrow> (Returns \<sigma>1, [Call_inc, RespondWithErr err])
           | Returns (None, \<sigma>1) \<Rightarrow> (Panics NilPointerDereference, [Call_inc]))"
    using t pre by blast
  then have c: "ServeHTTP exact_Seconds scope_inc scope_dec no_host_proxy
                  (sample_request ''alice'' ''pw'') ?r sample_store
                = (Panics NilPointerDereference, [Call_inc])"
    unfolding inc by simp
  have "ServeHTTP exact_Seconds scope_inc scope_dec no_host_proxy (sample_request ''alice'' ''pw'')
          ?r busy_store
        = (case scope_inc ?s busy_store of
             Panics p \<Rightarrow> (Panics p, [Call_inc])
           | Returns (Some err, \<sigma>1) \<Rightarrow> (Returns \<sigma>1, [Call_inc, RespondWithErr err])
           | Returns (None, \<sigma>1) \<Rightarrow> (Panics NilPointerDereference, [Call_inc]))"
    using tb pre_busy by blast
  then have d: "\<exists>err. ServeHTTP exact_Seconds scope_inc scope_dec no_host_proxy
                  (sample_request ''alice'' ''pw'') ?r busy_store
                = (Returns busy_store, [Call_inc, RespondWithErr err])"
    using inc_busy by auto
  show ?thesis using a b c d by blast
qed

text \<open>
  The claim as stated fails where admission refuses the request: on the topology whose
  cluster has no host, with the initial user at its limit, \<^verbatim>\<open>getRequestScope\<close> returns
  the scope with the \<^verbatim>\<open>nil\<close> host and \<^verbatim>\<open>ServeHTTP\<close> returns after
  \<^verbatim>\<open>respondWithErr\<close>, without a panic: the host's address is not read.
\<close>

theorem empty_cluster_refused_counterexample:
  "cluster.hosts \<lparr>cluster.hosts = [], cluster.users = [''default'' \<mapsto> 0]\<rparr> = []
   \<and> getRequestScope busy_store no_host_proxy (sample_request ''alice'' ''pw'')
       = Inr \<lparr>initialUser = 0, executionUser = 0,
              cluster = \<lparr>cluster.hosts = [], cluster.users = [''default'' \<mapsto> 0]\<rparr>, host = None\<rparr>
   \<and> (\<exists>err. \<forall>r. ServeHTTP exact_Seconds scope_inc scope_dec no_host_proxy
                (sample_request ''alice'' ''pw'') r busy_store
              = (Returns busy_store, [Call_inc, RespondWithErr err]))
   \<and> (\<forall>r. fst (ServeHTTP exact_Seconds scope_inc scope_dec no_host_proxy
                (sample_request ''alice'' ''pw'') r busy_store)
            \<noteq> Panics NilPointerDereference)"
proof -
  let ?c = "\<lparr>cluster.hosts = [], cluster.users = [''default'' \<mapsto> 0]\<rparr>"
  let ?s = "\<lparr>initialUser = 0, executionUser = 0, cluster = ?c, host = None\<rparr>"
  have sc: "getRequestScope busy_store no_host_proxy (sample_request ''alice'' ''pw'') = Inr ?s"
    by (simp add: getRequestScope_def basicAuth_def sample_request_def no_host_proxy_def
        busy_store_def sample_store_def empty_store_def getHost_def)
  obtain err where inc: "scope_inc ?s busy_store = Returns (Some err, busy_store)"
    by (simp add: scope_inc_def busy_store_def sample_store_def empty_store_def)
  have run: "ServeHTTP exact_Seconds scope_inc scope_dec no_host_proxy
               (sample_request ''alice'' ''pw'') r busy_store
             = (Returns busy_store, [Call_inc, RespondWithErr err])" for r
    unfolding ServeHTTP_def sc using inc by simp
  have "\<exists>err. \<forall>r. ServeHTTP exact_Seconds scope_inc scope_dec no_host_proxy
                (sample_request ''alice'' ''pw'') r busy_store
              = (Returns busy_store, [Call_inc, RespondWithErr err])"
    using run by blast
  moreover have "\<forall>r. fst (ServeHTTP exact_Seconds scope_inc scope_dec no_host_proxy
                (sample_request ''alice'' ''pw'') r busy_store)
            \<noteq> Panics NilPointerDereference"
    using run by simp
  ultimately show ?thesis using sc by simp
qed

section \<open>Properties of the configuration manager\<close>

lemma ApplyConfig_users_dom:
  "dom (fst (ApplyConfig_users us m \<sigma>)) = dom m \<union> OutUser.Name ` set us"
  by (induction us arbitrary: m \<sigma>) auto

lemma ApplyConfig_clusters_step:
  assumes "ApplyConfig_clusters parse (c0 # cs) cm \<sigma> = Inr (cm', \<sigma>')"
  shows "\<exists>hs us \<sigma>2. dom us = OutUser.Name ` set (OutUsers c0)
          \<and> ApplyConfig_clusters parse cs
                (cm(Cluster.Name c0 \<mapsto> \<lparr>cluster.hosts = hs, cluster.users = us\<rparr>)) \<sigma>2
              = Inr (cm', \<sigma>')"
proof -
  from assms obtain hs \<sigma>1 where
    hs: "ApplyConfig_hosts parse (Cluster.Scheme c0) (Nodes c0) \<sigma> = Inr (hs, \<sigma>1)"
    by (cases "ApplyConfig_hosts parse (Cluster.Scheme c0) (Nodes c0) \<sigma>") auto
  obtain us \<sigma>2 where us: "ApplyConfig_users (OutUsers c0) Map.empty \<sigma>1 = (us, \<sigma>2)"
    by (cases "ApplyConfig_users (OutUsers c0) Map.empty \<sigma>1")
  have "ApplyConfig_clusters parse cs
          (cm(Cluster.Name c0 \<mapsto> \<lparr>cluster.hosts = hs, cluster.users = us\<rparr>)) \<sigma>2 = Inr (cm', \<sigma>')"
    using assms hs us by simp
  moreover have "dom us = OutUser.Name ` set (OutUsers c0)"
    using ApplyConfig_users_dom [of "OutUsers c0" Map.empty \<sigma>1] us by simp
  ultimately show ?thesis by blast
qed

lemma ApplyConfig_clusters_other:
  "ApplyConfig_clusters parse cs cm \<sigma> = Inr (cm', \<sigma>') \<Longrightarrow> n \<notin> Cluster.Name ` set cs
     \<Longrightarrow> cm' n = cm n"
proof (induction cs arbitrary: cm \<sigma>)
  case Nil
  then show ?case by simp
next
  case (Cons c cs)
  obtain hs us \<sigma>2 where
    rest: "ApplyConfig_clusters parse cs
             (cm(Cluster.Name c \<mapsto> \<lparr>cluster.hosts = hs, cluster.users = us\<rparr>)) \<sigma>2 = Inr (cm', \<sigma>')"
    using ApplyConfig_clusters_step [OF Cons.prems(1)] by blast
  have "n \<notin> Cluster.Name ` set cs" and "Cluster.Name c \<noteq> n"
    using Cons.prems(2) by auto
  then show ?case using Cons.IH [OF rest] by simp
qed

lemma ApplyConfig_clusters_dom:
  "ApplyConfig_clusters parse cs cm \<sigma> = Inr (cm', \<sigma>')
     \<Longrightarrow> dom cm' = dom cm \<union> Cluster.Name ` set cs"
proof (induction cs arbitrary: cm \<sigma>)
  case Nil
  then show ?case by simp
next
  case (Cons c cs)
  obtain hs us \<sigma>2 where
    rest: "ApplyConfig_clusters parse cs
             (cm(Cluster.Name c \<mapsto> \<lparr>cluster.hosts = hs, cluster.users = us\<rparr>)) \<sigma>2 = Inr (cm', \<sigma>')"
    using ApplyConfig_clusters_step [OF Cons.prems(1)] by blast
  show ?case using Cons.IH [OF rest] by auto
qed

lemma find_snoc:
  "find P (xs @ [y]) = (case find P xs of Some z \<Rightarrow> Some z | None \<Rightarrow> if P y then Some y else None)"
  by (induction xs) simp_all

lemma ApplyConfig_clusters_entry:
  "ApplyConfig_clusters parse cs cm \<sigma> = Inr (cm', \<sigma>')
     \<Longrightarrow> find (\<lambda>c. Cluster.Name c = n) (rev cs) = Some c
     \<Longrightarrow> \<exists>cl. cm' n = Some cl \<and> dom (cluster.users cl) = OutUser.Name ` set (OutUsers c)"
proof (induction cs arbitrary: cm \<sigma>)
  case Nil
  then show ?case by simp
next
  case (Cons c0 cs)
  obtain hs us \<sigma>2 where du: "dom us = OutUser.Name ` set (OutUsers c0)"
    and rest: "ApplyConfig_clusters parse cs
             (cm(Cluster.Name c0 \<mapsto> \<lparr>cluster.hosts = hs, cluster.users = us\<rparr>)) \<sigma>2 = Inr (cm', \<sigma>')"
    using ApplyConfig_clusters_step [OF Cons.prems(1)] by blast
  let ?cm = "cm(Cluster.Name c0 \<mapsto> \<lparr>cluster.hosts = hs, cluster.users = us\<rparr>)"
  show ?case
  proof (cases "find (\<lambda>c. Cluster.Name c = n) (rev cs)")
    case (Some z)
    then have "z = c" using Cons.prems(2) by (simp add: find_snoc)
    with Some show ?thesis using Cons.IH [OF rest] by simp
  next
    case None
    then have c: "c = c0" and nm: "Cluster.Name c0 = n"
      using Cons.prems(2) by (auto simp: find_snoc split: if_splits)
    have "n \<notin> Cluster.Name ` set cs"
      using None by (auto simp: find_None_iff)
    then have "cm' n = ?cm n" using ApplyConfig_clusters_other [OF rest] by simp
    then show ?thesis using c nm du by simp
  qed
qed

lemma ApplyConfig_initialUsers_ok:
  "ApplyConfig_initialUsers cm us ium \<sigma> = Inr (ium', \<sigma>')
     \<Longrightarrow> (\<forall>u \<in> set us. \<exists>c. cm (ToCluster u) = Some c \<and> ToUser u \<in> dom (cluster.users c))
         \<and> dom ium' = dom ium \<union> OutUser.Name ` set us"
proof (induction us arbitrary: ium \<sigma>)
  case Nil
  then show ?case by simp
next
  case (Cons u us)
  from Cons.prems obtain c where c: "cm (ToCluster u) = Some c"
    by (cases "cm (ToCluster u)") auto
  from Cons.prems c obtain eu where eu: "cluster.users c (ToUser u) = Some eu"
    by (cases "cluster.users c (ToUser u)") auto
  let ?iu = "\<lparr>name = OutUser.Name u, password = [],
               maxConcurrentQueries = MaxConcurrentQueries u,
               maxExecutionTime = MaxExecutionTime u, runningQueries = 0,
               toCluster = ToCluster u, toUser = ToUser u\<rparr>"
  have rest: "ApplyConfig_initialUsers cm us
                (ium(OutUser.Name u \<mapsto> fst (newInitialUser ?iu \<sigma>)))
                (snd (newInitialUser ?iu \<sigma>)) = Inr (ium', \<sigma>')"
    using Cons.prems c eu by simp
  have "ToUser u \<in> dom (cluster.users c)" using eu by auto
  then show ?case using Cons.IH [OF rest] c by auto
qed

lemma ApplyConfig_None:
  assumes "fst (ApplyConfig validate parse cfg rp \<sigma>) = None"
  shows "\<exists>cm \<sigma>1 ium \<sigma>2.
           ApplyConfig_clusters parse (Clusters cfg) Map.empty \<sigma> = Inr (cm, \<sigma>1)
         \<and> ApplyConfig_initialUsers cm (GlobalUsers cfg) Map.empty \<sigma>1 = Inr (ium, \<sigma>2)
         \<and> ApplyConfig validate parse cfg rp \<sigma>
             = (None, rp\<lparr>clusters := cm, reverseProxy.users := ium\<rparr>, \<sigma>2\<lparr>logDebug := LogDebug cfg\<rparr>)"
proof (cases "validate cfg")
  case (Some e)
  then show ?thesis using assms by (simp add: ApplyConfig_def)
next
  case None
  show ?thesis
  proof (cases "ApplyConfig_clusters parse (Clusters cfg) Map.empty \<sigma>")
    case (Inl e)
    then show ?thesis using assms None by (simp add: ApplyConfig_def)
  next
    case (Inr a)
    obtain cm \<sigma>1 where a: "a = (cm, \<sigma>1)" by (cases a)
    show ?thesis
    proof (cases "ApplyConfig_initialUsers cm (GlobalUsers cfg) Map.empty \<sigma>1")
      case (Inl e)
      then show ?thesis using assms None Inr a by (simp add: ApplyConfig_def)
    next
      case inr: (Inr b)
      obtain ium \<sigma>2 where b: "b = (ium, \<sigma>2)" by (cases b)
      show ?thesis using None Inr a inr b by (simp add: ApplyConfig_def)
    qed
  qed
qed

lemma ApplyConfig_Some:
  assumes "fst (ApplyConfig validate parse cfg rp \<sigma>) \<noteq> None"
  shows "snd (ApplyConfig validate parse cfg rp \<sigma>) = (rp, \<sigma>)"
proof (cases "validate cfg")
  case (Some e)
  then show ?thesis by (simp add: ApplyConfig_def)
next
  case None
  show ?thesis
  proof (cases "ApplyConfig_clusters parse (Clusters cfg) Map.empty \<sigma>")
    case (Inl e)
    then show ?thesis using None by (simp add: ApplyConfig_def)
  next
    case (Inr a)
    obtain cm \<sigma>1 where a: "a = (cm, \<sigma>1)" by (cases a)
    show ?thesis
    proof (cases "ApplyConfig_initialUsers cm (GlobalUsers cfg) Map.empty \<sigma>1")
      case (Inl e)
      then show ?thesis using None Inr a by (simp add: ApplyConfig_def)
    next
      case inr: (Inr b)
      obtain ium \<sigma>2 where b: "b = (ium, \<sigma>2)" by (cases b)
      show ?thesis using assms None Inr a inr b by (simp add: ApplyConfig_def)
    qed
  qed
qed

text \<open>
  C4. When \<^verbatim>\<open>ApplyConfig\<close> returns an error, the proxy (both maps) and the store are what
  they were before the call. It returns an error for every configuration in which some
  initial user names a cluster that the configuration does not have, and for every
  configuration in which some initial user names an execution user that its cluster does
  not have (the cluster being the last of that name in the configuration, which is the one
  the map keeps). When it returns no error, the keys of the proxy's cluster map are the
  cluster names of the configuration and the keys of its user map the names of the
  configuration's initial users: both maps are replaced.
\<close>

theorem ApplyConfig_atomic:
  "(fst (ApplyConfig validate parse cfg rp \<sigma>) \<noteq> None
      \<longrightarrow> snd (ApplyConfig validate parse cfg rp \<sigma>) = (rp, \<sigma>))
   \<and> ((\<exists>u \<in> set (GlobalUsers cfg). ToCluster u \<notin> Cluster.Name ` set (Clusters cfg))
      \<longrightarrow> fst (ApplyConfig validate parse cfg rp \<sigma>) \<noteq> None)
   \<and> ((\<exists>u \<in> set (GlobalUsers cfg). \<exists>c.
          find (\<lambda>c. Cluster.Name c = ToCluster u) (rev (Clusters cfg)) = Some c
          \<and> ToUser u \<notin> OutUser.Name ` set (OutUsers c))
      \<longrightarrow> fst (ApplyConfig validate parse cfg rp \<sigma>) \<noteq> None)
   \<and> (fst (ApplyConfig validate parse cfg rp \<sigma>) = None
      \<longrightarrow> dom (clusters (fst (snd (ApplyConfig validate parse cfg rp \<sigma>))))
            = Cluster.Name ` set (Clusters cfg)
          \<and> dom (reverseProxy.users (fst (snd (ApplyConfig validate parse cfg rp \<sigma>))))
            = OutUser.Name ` set (GlobalUsers cfg))"
proof (intro conjI impI)
  assume "fst (ApplyConfig validate parse cfg rp \<sigma>) \<noteq> None"
  then show "snd (ApplyConfig validate parse cfg rp \<sigma>) = (rp, \<sigma>)"
    by (rule ApplyConfig_Some)
next
  assume bad: "\<exists>u \<in> set (GlobalUsers cfg). ToCluster u \<notin> Cluster.Name ` set (Clusters cfg)"
  show "fst (ApplyConfig validate parse cfg rp \<sigma>) \<noteq> None"
  proof
    assume ok: "fst (ApplyConfig validate parse cfg rp \<sigma>) = None"
    then obtain cm \<sigma>1 ium \<sigma>2 where
      cs: "ApplyConfig_clusters parse (Clusters cfg) Map.empty \<sigma> = Inr (cm, \<sigma>1)"
      and ius: "ApplyConfig_initialUsers cm (GlobalUsers cfg) Map.empty \<sigma>1 = Inr (ium, \<sigma>2)"
      using ApplyConfig_None [OF ok] by blast
    from bad obtain u where u: "u \<in> set (GlobalUsers cfg)"
      and nc: "ToCluster u \<notin> Cluster.Name ` set (Clusters cfg)" by blast
    have "cm (ToCluster u) = None"
      using ApplyConfig_clusters_other [OF cs nc] by simp
    moreover have "\<exists>c. cm (ToCluster u) = Some c"
      using ApplyConfig_initialUsers_ok [OF ius] u by blast
    ultimately show False by simp
  qed
next
  assume bad: "\<exists>u \<in> set (GlobalUsers cfg). \<exists>c.
          find (\<lambda>c. Cluster.Name c = ToCluster u) (rev (Clusters cfg)) = Some c
          \<and> ToUser u \<notin> OutUser.Name ` set (OutUsers c)"
  show "fst (ApplyConfig validate parse cfg rp \<sigma>) \<noteq> None"
  proof
    assume ok: "fst (ApplyConfig validate parse cfg rp \<sigma>) = None"
    then obtain cm \<sigma>1 ium \<sigma>2 where
      cs: "ApplyConfig_clusters parse (Clusters cfg) Map.empty \<sigma> = Inr (cm, \<sigma>1)"
      and ius: "ApplyConfig_initialUsers cm (GlobalUsers cfg) Map.empty \<sigma>1 = Inr (ium, \<sigma>2)"
      using ApplyConfig_None [OF ok] by blast
    from bad obtain u c where u: "u \<in> set (GlobalUsers cfg)"
      and f: "find (\<lambda>c. Cluster.Name c = ToCluster u) (rev (Clusters cfg)) = Some c"
      and nu: "ToUser u \<notin> OutUser.Name ` set (OutUsers c)" by blast
    obtain cl where cl: "cm (ToCluster u) = Some cl"
      and d: "dom (cluster.users cl) = OutUser.Name ` set (OutUsers c)"
      using ApplyConfig_clusters_entry [OF cs f] by blast
    have "\<exists>c. cm (ToCluster u) = Some c \<and> ToUser u \<in> dom (cluster.users c)"
      using ApplyConfig_initialUsers_ok [OF ius] u by blast
    then show False using cl d nu by auto
  qed
next
  assume ok: "fst (ApplyConfig validate parse cfg rp \<sigma>) = None"
  then obtain cm \<sigma>1 ium \<sigma>2 where
    cs: "ApplyConfig_clusters parse (Clusters cfg) Map.empty \<sigma> = Inr (cm, \<sigma>1)"
    and ius: "ApplyConfig_initialUsers cm (GlobalUsers cfg) Map.empty \<sigma>1 = Inr (ium, \<sigma>2)"
    and r: "ApplyConfig validate parse cfg rp \<sigma>
             = (None, rp\<lparr>clusters := cm, reverseProxy.users := ium\<rparr>, \<sigma>2\<lparr>logDebug := LogDebug cfg\<rparr>)"
    using ApplyConfig_None [OF ok] by blast
  have res: "fst (snd (ApplyConfig validate parse cfg rp \<sigma>)) = rp\<lparr>clusters := cm, reverseProxy.users := ium\<rparr>"
    unfolding r by simp
  show "dom (clusters (fst (snd (ApplyConfig validate parse cfg rp \<sigma>))))
            = Cluster.Name ` set (Clusters cfg)"
    unfolding res using ApplyConfig_clusters_dom [OF cs] by simp
  show "dom (reverseProxy.users (fst (snd (ApplyConfig validate parse cfg rp \<sigma>))))
            = OutUser.Name ` set (GlobalUsers cfg)"
    unfolding res using ApplyConfig_initialUsers_ok [OF ius] by simp
qed

theorem ApplyConfig_atomic_witness:
  "(\<exists>u \<in> set (GlobalUsers (sample_config ''c2'' ''default'')).
       ToCluster u \<notin> Cluster.Name ` set (Clusters (sample_config ''c2'' ''default'')))
   \<and> fst (ApplyConfig accept_all sample_parse (sample_config ''c2'' ''default'')
             sample_proxy sample_store) \<noteq> None
   \<and> snd (ApplyConfig accept_all sample_parse (sample_config ''c2'' ''default'')
             sample_proxy sample_store) = (sample_proxy, sample_store)
   \<and> (\<exists>u \<in> set (GlobalUsers (sample_config ''c1'' ''web'')). \<exists>c.
          find (\<lambda>c. Cluster.Name c = ToCluster u) (rev (Clusters (sample_config ''c1'' ''web''))) = Some c
          \<and> ToUser u \<notin> OutUser.Name ` set (OutUsers c))
   \<and> fst (ApplyConfig accept_all sample_parse (sample_config ''c1'' ''web'')
             sample_proxy sample_store) \<noteq> None
   \<and> snd (ApplyConfig accept_all sample_parse (sample_config ''c1'' ''web'')
             sample_proxy sample_store) = (sample_proxy, sample_store)
   \<and> fst (ApplyConfig accept_all sample_parse (sample_config ''c1'' ''default'')
             sample_proxy sample_store) = None
   \<and> dom (clusters (fst (snd (ApplyConfig accept_all sample_parse (sample_config ''c1'' ''default'')
             sample_proxy sample_store)))) = {''c1''}
   \<and> dom (reverseProxy.users (fst (snd (ApplyConfig accept_all sample_parse
             (sample_config ''c1'' ''default'') sample_proxy sample_store)))) = {''alice''}"
proof -
  have a: "\<exists>u \<in> set (GlobalUsers (sample_config ''c2'' ''default'')).
       ToCluster u \<notin> Cluster.Name ` set (Clusters (sample_config ''c2'' ''default''))"
    by (simp add: sample_config_def)
  have b: "\<exists>u \<in> set (GlobalUsers (sample_config ''c1'' ''web'')). \<exists>c.
          find (\<lambda>c. Cluster.Name c = ToCluster u) (rev (Clusters (sample_config ''c1'' ''web''))) = Some c
          \<and> ToUser u \<notin> OutUser.Name ` set (OutUsers c)"
    by (simp add: sample_config_def)
  have c: "fst (ApplyConfig accept_all sample_parse (sample_config ''c1'' ''default'')
             sample_proxy sample_store) = None"
    by (simp add: ApplyConfig_def accept_all_def sample_config_def sample_parse_def)
  note t2 = ApplyConfig_atomic [of accept_all sample_parse "sample_config ''c2'' ''default''"
      sample_proxy sample_store]
  note tw = ApplyConfig_atomic [of accept_all sample_parse "sample_config ''c1'' ''web''"
      sample_proxy sample_store]
  note t1 = ApplyConfig_atomic [of accept_all sample_parse "sample_config ''c1'' ''default''"
      sample_proxy sample_store]
  have e2: "fst (ApplyConfig accept_all sample_parse (sample_config ''c2'' ''default'')
             sample_proxy sample_store) \<noteq> None"
    using t2 a by blast
  have s2: "snd (ApplyConfig accept_all sample_parse (sample_config ''c2'' ''default'')
             sample_proxy sample_store) = (sample_proxy, sample_store)"
    using t2 e2 by blast
  have ew: "fst (ApplyConfig accept_all sample_parse (sample_config ''c1'' ''web'')
             sample_proxy sample_store) \<noteq> None"
    using tw b by blast
  have sw: "snd (ApplyConfig accept_all sample_parse (sample_config ''c1'' ''web'')
             sample_proxy sample_store) = (sample_proxy, sample_store)"
    using tw ew by blast
  have d1: "dom (clusters (fst (snd (ApplyConfig accept_all sample_parse (sample_config ''c1'' ''default'')
             sample_proxy sample_store)))) = Cluster.Name ` set (Clusters (sample_config ''c1'' ''default''))"
    and d2: "dom (reverseProxy.users (fst (snd (ApplyConfig accept_all sample_parse
             (sample_config ''c1'' ''default'') sample_proxy sample_store))))
             = OutUser.Name ` set (GlobalUsers (sample_config ''c1'' ''default''))"
    using t1 c by blast+
  have n1: "Cluster.Name ` set (Clusters (sample_config ''c1'' ''default'')) = {''c1''}"
    and n2: "OutUser.Name ` set (GlobalUsers (sample_config ''c1'' ''default'')) = {''alice''}"
    by (simp_all add: sample_config_def)
  show ?thesis using a b c e2 s2 ew sw d1 d2 unfolding n1 n2 by blast
qed

lemma ApplyConfig_hosts_eu:
  "ApplyConfig_hosts parse scheme nodes \<sigma> = Inr (hs, \<sigma>')
     \<Longrightarrow> euAt \<sigma>' = euAt \<sigma> \<and> nextEU \<sigma>' = nextEU \<sigma>"
proof (induction nodes arbitrary: \<sigma> hs)
  case Nil
  then show ?case by simp
next
  case (Cons node nodes)
  from Cons.prems obtain a where a: "parse (scheme @ ''://'' @ node) = Inr a"
    by (cases "parse (scheme @ ''://'' @ node)") auto
  let ?\<sigma> = "snd (newHost \<lparr>addr = a, runningQueries = 0\<rparr> \<sigma>)"
  from Cons.prems a obtain ps where "ApplyConfig_hosts parse scheme nodes ?\<sigma> = Inr (ps, \<sigma>')"
    by (cases "ApplyConfig_hosts parse scheme nodes ?\<sigma>") auto
  from Cons.IH [OF this] show ?case by (simp add: newHost_def)
qed

lemma ApplyConfig_users_zero:
  assumes "\<forall>n p. m n = Some p \<longrightarrow> p < nextEU \<sigma>
             \<and> maxConcurrentQueries (euAt \<sigma> p) = 0 \<and> maxExecutionTime (euAt \<sigma> p) = 0"
    and "ApplyConfig_users us m \<sigma> = (m', \<sigma>')"
  shows "(\<forall>n p. m' n = Some p \<longrightarrow> p < nextEU \<sigma>'
             \<and> maxConcurrentQueries (euAt \<sigma>' p) = 0 \<and> maxExecutionTime (euAt \<sigma>' p) = 0)
         \<and> nextEU \<sigma> \<le> nextEU \<sigma>' \<and> (\<forall>p < nextEU \<sigma>. euAt \<sigma>' p = euAt \<sigma> p)"
  using assms
proof (induction us arbitrary: m \<sigma>)
  case Nil
  then show ?case by simp
next
  case (Cons u us)
  let ?e = "\<lparr>name = OutUser.Name u, password = Password u,
              maxConcurrentQueries = 0, maxExecutionTime = 0, runningQueries = 0\<rparr>"
  let ?m = "m(OutUser.Name u \<mapsto> fst (newExecutionUser ?e \<sigma>))"
  let ?\<sigma> = "snd (newExecutionUser ?e \<sigma>)"
  have rest: "ApplyConfig_users us ?m ?\<sigma> = (m', \<sigma>')" using Cons.prems(2) by simp
  have inv: "\<forall>n p. ?m n = Some p \<longrightarrow> p < nextEU ?\<sigma>
             \<and> maxConcurrentQueries (euAt ?\<sigma> p) = 0 \<and> maxExecutionTime (euAt ?\<sigma> p) = 0"
    using Cons.prems(1) by (auto simp: newExecutionUser_def less_Suc_eq)
  have ext: "nextEU \<sigma> \<le> nextEU ?\<sigma>" "\<forall>p < nextEU \<sigma>. euAt ?\<sigma> p = euAt \<sigma> p"
    by (simp_all add: newExecutionUser_def)
  from Cons.IH [OF inv rest] ext show ?case by auto
qed

lemma ApplyConfig_clusters_zero:
  assumes "\<forall>cn c n p. cm cn = Some c \<and> cluster.users c n = Some p \<longrightarrow> p < nextEU \<sigma>
             \<and> maxConcurrentQueries (euAt \<sigma> p) = 0 \<and> maxExecutionTime (euAt \<sigma> p) = 0"
    and "ApplyConfig_clusters parse cs cm \<sigma> = Inr (cm', \<sigma>')"
  shows "\<forall>cn c n p. cm' cn = Some c \<and> cluster.users c n = Some p \<longrightarrow> p < nextEU \<sigma>'
             \<and> maxConcurrentQueries (euAt \<sigma>' p) = 0 \<and> maxExecutionTime (euAt \<sigma>' p) = 0"
  using assms
proof (induction cs arbitrary: cm \<sigma>)
  case Nil
  then show ?case by simp
next
  case (Cons c0 cs)
  from Cons.prems(2) obtain hs \<sigma>1 where
    hs: "ApplyConfig_hosts parse (Cluster.Scheme c0) (Nodes c0) \<sigma> = Inr (hs, \<sigma>1)"
    by (cases "ApplyConfig_hosts parse (Cluster.Scheme c0) (Nodes c0) \<sigma>") auto
  obtain us \<sigma>2 where us: "ApplyConfig_users (OutUsers c0) Map.empty \<sigma>1 = (us, \<sigma>2)"
    by (cases "ApplyConfig_users (OutUsers c0) Map.empty \<sigma>1")
  let ?cm = "cm(Cluster.Name c0 \<mapsto> \<lparr>cluster.hosts = hs, cluster.users = us\<rparr>)"
  have rest: "ApplyConfig_clusters parse cs ?cm \<sigma>2 = Inr (cm', \<sigma>')"
    using Cons.prems(2) hs us by simp
  have same: "euAt \<sigma>1 = euAt \<sigma>" "nextEU \<sigma>1 = nextEU \<sigma>"
    using ApplyConfig_hosts_eu [OF hs] by simp_all
  have new: "\<forall>n p. us n = Some p \<longrightarrow> p < nextEU \<sigma>2
             \<and> maxConcurrentQueries (euAt \<sigma>2 p) = 0 \<and> maxExecutionTime (euAt \<sigma>2 p) = 0"
    and le: "nextEU \<sigma>1 \<le> nextEU \<sigma>2" and old: "\<forall>p < nextEU \<sigma>1. euAt \<sigma>2 p = euAt \<sigma>1 p"
    using ApplyConfig_users_zero [of Map.empty \<sigma>1 "OutUsers c0" us \<sigma>2] us by simp_all
  have inv: "\<forall>cn c n p. ?cm cn = Some c \<and> cluster.users c n = Some p \<longrightarrow> p < nextEU \<sigma>2
             \<and> maxConcurrentQueries (euAt \<sigma>2 p) = 0 \<and> maxExecutionTime (euAt \<sigma>2 p) = 0"
  proof (intro allI impI)
    fix cn c n p
    assume h: "?cm cn = Some c \<and> cluster.users c n = Some p"
    show "p < nextEU \<sigma>2 \<and> maxConcurrentQueries (euAt \<sigma>2 p) = 0 \<and> maxExecutionTime (euAt \<sigma>2 p) = 0"
    proof (cases "cn = Cluster.Name c0")
      case True
      with h have "us n = Some p" by auto
      with new show ?thesis by blast
    next
      case False
      with h have "cm cn = Some c \<and> cluster.users c n = Some p" by simp
      with Cons.prems(1) have "p < nextEU \<sigma> \<and> maxConcurrentQueries (euAt \<sigma> p) = 0
          \<and> maxExecutionTime (euAt \<sigma> p) = 0" by blast
      with same le old show ?thesis by auto
    qed
  qed
  from Cons.IH [OF inv rest] show ?case .
qed

lemma ApplyConfig_initialUsers_eu:
  "ApplyConfig_initialUsers cm us ium \<sigma> = Inr (ium', \<sigma>') \<Longrightarrow> euAt \<sigma>' = euAt \<sigma>"
proof (induction us arbitrary: ium \<sigma>)
  case Nil
  then show ?case by simp
next
  case (Cons u us)
  from Cons.prems obtain c where c: "cm (ToCluster u) = Some c"
    by (cases "cm (ToCluster u)") auto
  from Cons.prems c obtain eu where eu: "cluster.users c (ToUser u) = Some eu"
    by (cases "cluster.users c (ToUser u)") auto
  let ?iu = "\<lparr>name = OutUser.Name u, password = [],
               maxConcurrentQueries = MaxConcurrentQueries u,
               maxExecutionTime = MaxExecutionTime u, runningQueries = 0,
               toCluster = ToCluster u, toUser = ToUser u\<rparr>"
  have rest: "ApplyConfig_initialUsers cm us
                (ium(OutUser.Name u \<mapsto> fst (newInitialUser ?iu \<sigma>)))
                (snd (newInitialUser ?iu \<sigma>)) = Inr (ium', \<sigma>')"
    using Cons.prems c eu by simp
  from Cons.IH [OF rest] show ?case by (simp add: newInitialUser_def)
qed

lemma sample_config_applied:
  "MaxConcurrentQueries (hd (OutUsers (hd (Clusters (sample_config ''c1'' ''default''))))) = 5
   \<and> MaxExecutionTime (hd (OutUsers (hd (Clusters (sample_config ''c1'' ''default''))))) = 10000000000
   \<and> (\<exists>rp \<sigma> c eu.
         ApplyConfig accept_all sample_parse (sample_config ''c1'' ''default'') new_proxy empty_store
           = (None, rp, \<sigma>)
         \<and> clusters rp ''c1'' = Some c \<and> cluster.users c ''default'' = Some eu
         \<and> name (euAt \<sigma> eu) = ''default'' \<and> password (euAt \<sigma> eu) = ''secret''
         \<and> maxConcurrentQueries (euAt \<sigma> eu) = 0 \<and> maxExecutionTime (euAt \<sigma> eu) = 0)"
  by (simp add: sample_config_def ApplyConfig_def accept_all_def sample_parse_def new_proxy_def
      empty_store_def newHost_def newExecutionUser_def newInitialUser_def)

text \<open>
  C1. The claim: after a successful \<^verbatim>\<open>ApplyConfig\<close>, every execution user of every
  cluster carries the two limits of the configuration. The code builds an execution user
  from the name and the password only: for every configuration, after a successful
  \<^verbatim>\<open>ApplyConfig\<close>, every execution user of every cluster of the proxy has
  \<^verbatim>\<open>maxConcurrentQueries\<close> zero and \<^verbatim>\<open>maxExecutionTime\<close> zero, whatever the
  configuration says.
\<close>

theorem ApplyConfig_execution_user_limits_zero:
  assumes "ApplyConfig validate parse cfg rp \<sigma> = (None, rp', \<sigma>')"
    and "clusters rp' cn = Some c" and "cluster.users c un = Some eu"
  shows "maxConcurrentQueries (euAt \<sigma>' eu) = 0 \<and> maxExecutionTime (euAt \<sigma>' eu) = 0"
proof -
  have "fst (ApplyConfig validate parse cfg rp \<sigma>) = None" using assms(1) by simp
  then obtain cm \<sigma>1 ium \<sigma>2 where
    cs: "ApplyConfig_clusters parse (Clusters cfg) Map.empty \<sigma> = Inr (cm, \<sigma>1)"
    and ius: "ApplyConfig_initialUsers cm (GlobalUsers cfg) Map.empty \<sigma>1 = Inr (ium, \<sigma>2)"
    and r: "ApplyConfig validate parse cfg rp \<sigma>
             = (None, rp\<lparr>clusters := cm, reverseProxy.users := ium\<rparr>, \<sigma>2\<lparr>logDebug := LogDebug cfg\<rparr>)"
    using ApplyConfig_None by blast
  have rp': "clusters rp' = cm" and s': "euAt \<sigma>' = euAt \<sigma>1"
    using assms(1) r ApplyConfig_initialUsers_eu [OF ius] by auto
  have "\<forall>cn c n p. cm cn = Some c \<and> cluster.users c n = Some p \<longrightarrow> p < nextEU \<sigma>1
             \<and> maxConcurrentQueries (euAt \<sigma>1 p) = 0 \<and> maxExecutionTime (euAt \<sigma>1 p) = 0"
    using ApplyConfig_clusters_zero [of Map.empty \<sigma> parse "Clusters cfg" cm \<sigma>1] cs by simp
  then show ?thesis using assms(2,3) rp' s' by auto
qed

theorem ApplyConfig_execution_user_limits_zero_witness:
  "MaxConcurrentQueries (hd (OutUsers (hd (Clusters (sample_config ''c1'' ''default''))))) = 5
   \<and> MaxExecutionTime (hd (OutUsers (hd (Clusters (sample_config ''c1'' ''default''))))) = 10000000000
   \<and> (\<exists>rp \<sigma> c eu.
         ApplyConfig accept_all sample_parse (sample_config ''c1'' ''default'') new_proxy empty_store
           = (None, rp, \<sigma>)
         \<and> clusters rp ''c1'' = Some c \<and> cluster.users c ''default'' = Some eu
         \<and> name (euAt \<sigma> eu) = ''default'' \<and> password (euAt \<sigma> eu) = ''secret''
         \<and> maxConcurrentQueries (euAt \<sigma> eu) = 0 \<and> maxExecutionTime (euAt \<sigma> eu) = 0)"
proof -
  obtain rp \<sigma> c eu where
    r: "ApplyConfig accept_all sample_parse (sample_config ''c1'' ''default'') new_proxy empty_store
           = (None, rp, \<sigma>)"
    and c: "clusters rp ''c1'' = Some c" and eu: "cluster.users c ''default'' = Some eu"
    and np: "name (euAt \<sigma> eu) = ''default''" "password (euAt \<sigma> eu) = ''secret''"
    using sample_config_applied by blast
  have "maxConcurrentQueries (euAt \<sigma> eu) = 0 \<and> maxExecutionTime (euAt \<sigma> eu) = 0"
    using ApplyConfig_execution_user_limits_zero [OF r c eu] .
  moreover have "MaxConcurrentQueries (hd (OutUsers (hd (Clusters (sample_config ''c1'' ''default''))))) = 5
   \<and> MaxExecutionTime (hd (OutUsers (hd (Clusters (sample_config ''c1'' ''default''))))) = 10000000000"
    by (simp add: sample_config_def)
  ultimately show ?thesis using r c eu np by blast
qed

end
